theory Spec2Isabelle
  imports Complex_Main
begin

section \<open>Data model of the Sienci ATCi keepout plugin\<close>

text \<open>
  The development embeds \<^verbatim>\<open>src/3rdparty/sienci-atci-plugin/sienci-atci-plugin.c\<close>.
  A value of the C type \<^verbatim>\<open>float\<close> is a \<^typ>\<open>real\<close>, and every difference, sum, product
  and quotient the source computes is rounded to IEEE-754 binary32 by the function
  \<open>binary32\<close> below. Comparisons, negation, \<^verbatim>\<open>fminf\<close>/\<^verbatim>\<open>fmaxf\<close> and copies are exact.
  Infinities, NaN and the limits of the exponent range are outside the model. Every
  division of the source is guarded by a test that the divisor is not zero, and the
  model keeps that guard.
\<close>

datatype keepout_source_t = SOURCE_STARTUP | SOURCE_RACK | SOURCE_COMMAND | SOURCE_MACRO

datatype message_type_t = Message_Info | Message_Warning

datatype status_code_t = Status_OK | Status_Unhandled | Status_GcodeValueOutOfRange

text \<open>
  \<^verbatim>\<open>atci_config_t\<close>: the four stored bounds and the three named bits of
  \<^verbatim>\<open>config_flags_t\<close> (the five reserved bits carry no behaviour).
\<close>

record atci_config_t =
  cfg_x_min :: real
  cfg_y_min :: real
  cfg_x_max :: real
  cfg_y_max :: real
  plugin_enabled :: bool
  monitor_rack_presence :: bool
  monitor_tc_macro :: bool

text \<open>\<^verbatim>\<open>atci_rt_t\<close>: the runtime state that is never persisted.\<close>

record atci_rt_t =
  x_min :: real
  y_min :: real
  x_max :: real
  y_max :: real
  enabled :: bool
  source :: keepout_source_t
  last_pin_state :: bool

text \<open>
  A machine coordinate vector \<^verbatim>\<open>float[N_AXIS]\<close>: the component at index
  \<^verbatim>\<open>X_AXIS\<close>, the one at \<^verbatim>\<open>Y_AXIS\<close>, and the remaining \<^verbatim>\<open>N_AXIS - 2\<close> ones.
  A \<^verbatim>\<open>memcpy\<close> of \<^verbatim>\<open>sizeof(float) * N_AXIS\<close> bytes copies the whole vector.
\<close>

record coord =
  X_AXIS :: real
  Y_AXIS :: real
  other_axes :: "real list"

text \<open>
  The levels read by \<^verbatim>\<open>DIGITAL_IN\<close> on the four auxiliary inputs the plugin uses
  (\<open>True\<close> is a high pin; the source negates every reading).
\<close>

record digital_in =
  AUXINPUT7 :: bool
  AUXINPUT0 :: bool
  AUXINPUT1 :: bool
  AUXINPUT2 :: bool

text \<open>The fields of \<^verbatim>\<open>parser_block_t\<close> that the M-code handlers read or write.\<close>

record parser_block_t =
  user_mcode :: nat
  words_p :: bool
  values_p :: real

text \<open>
  The file's static variables, together with what its calls into the host leave behind:
  the record held in non-volatile storage (\<open>None\<close> when the read does not return
  \<^verbatim>\<open>NVS_TransferResult_OK\<close>), the messages passed to \<^verbatim>\<open>report_message\<close>, the delays of
  the \<^verbatim>\<open>poll_rack_sensor\<close> tasks queued with \<^verbatim>\<open>task_add_delayed\<close>, and the strings
  written to the report stream.
\<close>

record plugin =
  config :: atci_config_t
  atci :: atci_rt_t
  tc_macro_running :: bool
  drawbar_state :: bool
  tool_sensor_state :: bool
  pressure_sensor_state :: bool
  inside_keepout_zone :: bool
  nvs :: "atci_config_t option"
  messages :: "(string \<times> message_type_t) list"
  tasks :: "nat list"
  stream :: "string list"

section \<open>Constants\<close>

definition KEEPOUT_TOLERANCE :: real where
  "KEEPOUT_TOLERANCE = 0.5"

definition MSG_INSIDE_ZONE :: string where
  "MSG_INSIDE_ZONE =
     ''ATCI: You are currently inside the keepout zone. Disable keepout before Jogging to safety''"

definition MSG_BLOCKED_AT_WALL :: string where
  "MSG_BLOCKED_AT_WALL = ''ATCI: Jog move blocked at keepout boundary.''"

definition MSG_CROSSING :: string where
  "MSG_CROSSING = ''ATCI: Move crosses keepout zone''"

definition MSG_TARGET_IN_ZONE :: string where
  "MSG_TARGET_IN_ZONE = ''ATCI: Target inside region''"

definition MSG_USAGE :: string where
  "MSG_USAGE = ''Use M960 P1 to enable Sienci ATC Keepout, M960 P0 to disable.''"

section \<open>Single-precision arithmetic\<close>

text \<open>
  Rounding to binary32: to the nearest value with a significand of 24 bits, ties to the
  even significand. \<open>binary32_ulp a\<close> is the spacing \<open>u\<close> of the binary32 values around
  \<open>a > 0\<close>, the power of two with \<open>2\<^sup>2\<^sup>3 * u \<le> a < 2\<^sup>2\<^sup>4 * u\<close>, found from \<open>1\<close> by halving
  and then by doubling; the rounded value is the nearest multiple of \<open>u\<close>. The exponent
  is not bounded: overflow and subnormal numbers are left out.
\<close>

function binary32_ulp_down :: "real \<Rightarrow> real \<Rightarrow> real" where
  "binary32_ulp_down a u =
     (if 0 < a \<and> 0 < u \<and> a < 8388608 * u then binary32_ulp_down a (u / 2) else u)"
  by pat_completeness auto
termination
proof (relation "measure (\<lambda>(a, u). nat \<lceil>log 2 (8388608 * u / a)\<rceil>)")
  show "wf (measure (\<lambda>(a, u). nat \<lceil>log 2 (8388608 * u / a)\<rceil>))" by simp
next
  fix a u :: real
  assume h: "0 < a \<and> 0 < u \<and> a < 8388608 * u"
  define r where "r = 8388608 * u / a"
  from h have r: "1 < r" by (simp add: r_def)
  then have pos: "0 < log 2 r" by simp
  have half: "8388608 * (u / 2) / a = r / 2" by (simp add: r_def)
  have "log 2 (r / 2) = log 2 r - 1" using r by (simp add: log_divide)
  then have "\<lceil>log 2 (r / 2)\<rceil> = \<lceil>log 2 r\<rceil> - 1" by simp
  moreover from pos have "1 \<le> \<lceil>log 2 r\<rceil>" by linarith
  ultimately have "nat \<lceil>log 2 (r / 2)\<rceil> < nat \<lceil>log 2 r\<rceil>" by simp
  then show "((a, u / 2), (a, u)) \<in> measure (\<lambda>(a, u). nat \<lceil>log 2 (8388608 * u / a)\<rceil>)"
    unfolding in_measure prod.case half unfolding r_def .
qed

function binary32_ulp_up :: "real \<Rightarrow> real \<Rightarrow> real" where
  "binary32_ulp_up a u =
     (if 0 < a \<and> 0 < u \<and> 16777216 * u \<le> a then binary32_ulp_up a (2 * u) else u)"
  by pat_completeness auto
termination
proof (relation "measure (\<lambda>(a, u). nat (\<lfloor>log 2 (a / (16777216 * u))\<rfloor> + 1))")
  show "wf (measure (\<lambda>(a, u). nat (\<lfloor>log 2 (a / (16777216 * u))\<rfloor> + 1)))" by simp
next
  fix a u :: real
  assume h: "0 < a \<and> 0 < u \<and> 16777216 * u \<le> a"
  define r where "r = a / (16777216 * u)"
  from h have r: "1 \<le> r" by (simp add: r_def)
  then have pos: "0 \<le> log 2 r" by simp
  have dbl: "a / (16777216 * (2 * u)) = r / 2" by (simp add: r_def)
  have "log 2 (r / 2) = log 2 r - 1" using r by (simp add: log_divide)
  then have "\<lfloor>log 2 (r / 2)\<rfloor> = \<lfloor>log 2 r\<rfloor> - 1" by simp
  moreover from pos have "0 \<le> \<lfloor>log 2 r\<rfloor>" by simp
  ultimately have "nat (\<lfloor>log 2 (r / 2)\<rfloor> + 1) < nat (\<lfloor>log 2 r\<rfloor> + 1)" by simp
  then show "((a, 2 * u), (a, u)) \<in> measure (\<lambda>(a, u). nat (\<lfloor>log 2 (a / (16777216 * u))\<rfloor> + 1))"
    unfolding in_measure prod.case dbl unfolding r_def .
qed

declare binary32_ulp_down.simps [simp del] binary32_ulp_up.simps [simp del]

definition binary32_ulp :: "real \<Rightarrow> real" where
  "binary32_ulp a = binary32_ulp_up a (binary32_ulp_down a 1)"

definition round_half_even :: "real \<Rightarrow> int" where
  "round_half_even m =
     (let n = \<lfloor>m\<rfloor>; r = m - of_int n
      in if r < 1 / 2 then n
         else if 1 / 2 < r then n + 1
         else if even n then n else n + 1)"

definition binary32 :: "real \<Rightarrow> real" where
  "binary32 x =
     (if x = 0 then 0
      else sgn x * of_int (round_half_even (\<bar>x\<bar> / binary32_ulp \<bar>x\<bar>)) * binary32_ulp \<bar>x\<bar>)"

section \<open>Helpers\<close>

definition report_message :: "string \<Rightarrow> message_type_t \<Rightarrow> plugin \<Rightarrow> plugin" where
  "report_message msg ty s = s\<lparr>messages := messages s @ [(msg, ty)]\<rparr>"

definition task_add_delayed :: "nat \<Rightarrow> plugin \<Rightarrow> plugin" where
  "task_add_delayed delay s = s\<lparr>tasks := tasks s @ [delay]\<rparr>"

definition keepout_set :: "plugin \<Rightarrow> plugin" where
  "keepout_set s =
     s\<lparr>atci := (atci s)
        \<lparr>x_min := min (cfg_x_min (config s)) (cfg_x_max (config s)),
         x_max := max (cfg_x_min (config s)) (cfg_x_max (config s)),
         y_min := min (cfg_y_min (config s)) (cfg_y_max (config s)),
         y_max := max (cfg_y_min (config s)) (cfg_y_max (config s))\<rparr>\<rparr>"

definition is_keepout_active :: "plugin \<Rightarrow> bool" where
  "is_keepout_active s = (plugin_enabled (config s) \<and> enabled (atci s))"

definition set_keepout_state :: "bool \<Rightarrow> keepout_source_t \<Rightarrow> plugin \<Rightarrow> plugin" where
  "set_keepout_state new_state event_source s =
     (if enabled (atci s) \<noteq> new_state \<or> source (atci s) \<noteq> event_source
      then s\<lparr>atci := (atci s)\<lparr>enabled := new_state, source := event_source\<rparr>\<rparr>
      else s)"

section \<open>Tool change and rack monitoring\<close>

text \<open>
  The handlers chained behind the two tool hooks are host code that cannot reach the
  plugin's static variables; they are left out of the state transformer.
\<close>

definition keepout_tool_selected :: "plugin \<Rightarrow> plugin" where
  "keepout_tool_selected s =
     (if monitor_tc_macro (config s)
      then set_keepout_state False SOURCE_MACRO (s\<lparr>tc_macro_running := True\<rparr>)
      else s)"

definition keepout_tool_changed :: "digital_in \<Rightarrow> plugin \<Rightarrow> plugin" where
  "keepout_tool_changed pins s =
     (if monitor_tc_macro (config s)
      then (let rack_is_installed = \<not> AUXINPUT7 pins
            in set_keepout_state rack_is_installed SOURCE_RACK (s\<lparr>tc_macro_running := False\<rparr>))
      else s)"

definition technically_inside :: "plugin \<Rightarrow> real \<Rightarrow> real \<Rightarrow> bool" where
  "technically_inside s x y =
     (x \<ge> x_min (atci s) \<and> x \<le> x_max (atci s) \<and> y \<ge> y_min (atci s) \<and> y \<le> y_max (atci s))"

definition poll_rack_sensor :: "digital_in \<Rightarrow> coord option \<Rightarrow> plugin \<Rightarrow> plugin" where
  "poll_rack_sensor pins pos s =
     (let s1 = (if monitor_rack_presence (config s)
                then (let current_pin_is_low = \<not> AUXINPUT7 pins
                      in if current_pin_is_low \<noteq> last_pin_state (atci s)
                         then set_keepout_state current_pin_is_low SOURCE_RACK
                                (s\<lparr>atci := (atci s)\<lparr>last_pin_state := current_pin_is_low\<rparr>\<rparr>)
                         else s)
                else s);
          s2 = s1\<lparr>drawbar_state := \<not> AUXINPUT0 pins,
                  tool_sensor_state := \<not> AUXINPUT1 pins,
                  pressure_sensor_state := \<not> AUXINPUT2 pins\<rparr>;
          s3 = s2\<lparr>inside_keepout_zone :=
                    (case pos of
                       Some p \<Rightarrow> technically_inside s2 (X_AXIS p) (Y_AXIS p)
                     | None \<Rightarrow> False)\<rparr>
      in task_add_delayed 100 s3)"

section \<open>Geometry\<close>

text \<open>
  The loop over the four half-planes, written twice in the source with the same body
  (lines 194--207 and 300--313): \<open>None\<close> is an early \<^verbatim>\<open>return false\<close>, \<open>Some (t0, t1)\<close>
  the two parameters when the loop runs to its end. The quotient \<^verbatim>\<open>q[i] / p[i]\<close> is a
  \<^verbatim>\<open>float\<close>.
\<close>

fun clip_loop :: "(real \<times> real) list \<Rightarrow> real \<Rightarrow> real \<Rightarrow> (real \<times> real) option" where
  "clip_loop [] t0 t1 = Some (t0, t1)"
| "clip_loop ((p, q) # pqs) t0 t1 =
     (if p = 0 then (if q < 0 then None else clip_loop pqs t0 t1)
      else (let t = binary32 (q / p)
            in if p < 0
               then (if t > t1 then None
                     else clip_loop pqs (if t > t0 then t else t0) t1)
               else (if t < t0 then None
                     else clip_loop pqs t0 (if t < t1 then t else t1))))"

text \<open>
  The arrays \<^verbatim>\<open>p\<close> and \<open>q\<close> as both functions fill them, each difference rounded, and the
  loop run on them from \<open>t0 = 0\<close>, \<open>t1 = 1\<close>.
\<close>

definition clip_interval :: "plugin \<Rightarrow> real \<Rightarrow> real \<Rightarrow> real \<Rightarrow> real \<Rightarrow> (real \<times> real) option" where
  "clip_interval s x0 y0 x1 y1 =
     (let dx = binary32 (x1 - x0);
          dy = binary32 (y1 - y0);
          p = [- dx, dx, - dy, dy];
          q = [binary32 (x0 - x_min (atci s)), binary32 (x_max (atci s) - x0),
               binary32 (y0 - y_min (atci s)), binary32 (y_max (atci s) - y0)]
      in clip_loop (zip p q) 0 1)"

definition line_intersects_keepout :: "plugin \<Rightarrow> real \<Rightarrow> real \<Rightarrow> real \<Rightarrow> real \<Rightarrow> bool" where
  "line_intersects_keepout s x0 y0 x1 y1 =
     (case clip_interval s x0 y0 x1 y1 of
        None \<Rightarrow> False
      | Some (t0, t1) \<Rightarrow> t0 < t1)"

text \<open>
  \<^verbatim>\<open>x0 + t0 * dx\<close>: the product is rounded and then the sum. A compiler that contracts
  the expression into one fused multiply-add rounds once; \<open>fused\<close> selects that reading.
\<close>

definition mul_add :: "bool \<Rightarrow> real \<Rightarrow> real \<Rightarrow> real \<Rightarrow> real" where
  "mul_add fused a b c =
     (if fused then binary32 (a + b * c) else binary32 (a + binary32 (b * c)))"

definition calculate_clipped_point_with :: "bool \<Rightarrow> plugin \<Rightarrow> coord \<Rightarrow> coord \<Rightarrow> coord option" where
  "calculate_clipped_point_with fused s start end_pt =
     (let x0 = X_AXIS start; y0 = Y_AXIS start;
          x1 = X_AXIS end_pt; y1 = Y_AXIS end_pt;
          dx = binary32 (x1 - x0); dy = binary32 (y1 - y0)
      in case clip_interval s x0 y0 x1 y1 of
           None \<Rightarrow> None
         | Some (t0, t1) \<Rightarrow>
             if t0 > 0
             then Some (end_pt\<lparr>X_AXIS := mul_add fused x0 t0 dx,
                               Y_AXIS := mul_add fused y0 t0 dy\<rparr>)
             else None)"

text \<open>The function as the C standard evaluates it without contraction.\<close>

definition calculate_clipped_point :: "plugin \<Rightarrow> coord \<Rightarrow> coord \<Rightarrow> coord option" where
  "calculate_clipped_point s start end_pt = calculate_clipped_point_with False s start end_pt"

section \<open>Travel and jog protection\<close>

text \<open>
  The test written three times in the source (lines 225--228, 238--241 and 339--342,
  356--359); the sums and differences with the tolerance are \<^verbatim>\<open>float\<close> results.
\<close>

definition strictly_deep_inside :: "plugin \<Rightarrow> real \<Rightarrow> real \<Rightarrow> bool" where
  "strictly_deep_inside s x y =
     (x > binary32 (x_min (atci s) + KEEPOUT_TOLERANCE) \<and>
      x < binary32 (x_max (atci s) - KEEPOUT_TOLERANCE) \<and>
      y > binary32 (y_min (atci s) + KEEPOUT_TOLERANCE) \<and>
      y < binary32 (y_max (atci s) - KEEPOUT_TOLERANCE))"

text \<open>
  \<open>prev\<close> is \<^verbatim>\<open>prev_check_travel_limits\<close> (\<open>None\<close> for a null pointer), \<open>pos\<close> what
  \<^verbatim>\<open>plan_get_position()\<close> returns. The result pairs the returned flag with the state.
\<close>

definition travel_limits_check ::
  "(coord \<Rightarrow> 'a \<Rightarrow> bool \<Rightarrow> 'e \<Rightarrow> bool) option \<Rightarrow> coord option \<Rightarrow> plugin \<Rightarrow>
   coord \<Rightarrow> 'a \<Rightarrow> bool \<Rightarrow> 'e \<Rightarrow> bool \<times> plugin" where
  "travel_limits_check prev pos s target axes is_cartesian envelope =
     (let chain = (case prev of
                     Some f \<Rightarrow> f target axes is_cartesian envelope
                   | None \<Rightarrow> True)
      in if \<not> is_keepout_active s then (chain, s)
         else (let xt = X_AXIS target;
                   yt = Y_AXIS target;
                   x0 = (case pos of Some p \<Rightarrow> X_AXIS p | None \<Rightarrow> 0);
                   y0 = (case pos of Some p \<Rightarrow> Y_AXIS p | None \<Rightarrow> 0);
                   deep = strictly_deep_inside s x0 y0;
                   inside = technically_inside s x0 y0;
                   target_deep_inside = strictly_deep_inside s xt yt
               in if target_deep_inside
                  then (if deep \<or> inside
                        then (False, report_message MSG_INSIDE_ZONE Message_Warning s)
                        else (False, report_message MSG_TARGET_IN_ZONE Message_Warning s))
                  else if line_intersects_keepout s x0 y0 xt yt
                  then (if deep
                        then (False, report_message MSG_INSIDE_ZONE Message_Warning s)
                        else if inside
                        then (False, report_message MSG_INSIDE_ZONE Message_Warning s)
                        else (False, report_message MSG_CROSSING Message_Warning s))
                  else (chain, s)))"

text \<open>
  \<open>prev\<close> is \<^verbatim>\<open>prev_apply_travel_limits\<close>, which rewrites the target in place. The
  result pairs the target after the call with the state.
\<close>

definition keepout_apply_travel_limits ::
  "(coord \<Rightarrow> coord \<Rightarrow> 'e \<Rightarrow> coord) option \<Rightarrow> plugin \<Rightarrow>
   coord \<Rightarrow> coord \<Rightarrow> 'e \<Rightarrow> coord \<times> plugin" where
  "keepout_apply_travel_limits prev s target current_position envelope =
     (let chain = (case prev of
                     Some f \<Rightarrow> f target current_position envelope
                   | None \<Rightarrow> target)
      in if \<not> is_keepout_active s then (chain, s)
         else (let x0 = X_AXIS current_position;
                   y0 = Y_AXIS current_position;
                   xt = X_AXIS target;
                   yt = Y_AXIS target;
                   deep = strictly_deep_inside s x0 y0;
                   inside = technically_inside s x0 y0
               in if deep
                  then (current_position, report_message MSG_INSIDE_ZONE Message_Warning s)
                  else (let intersects = line_intersects_keepout s x0 y0 xt yt;
                            target_deep_inside = strictly_deep_inside s xt yt
                        in if target_deep_inside \<or> intersects
                           then (case calculate_clipped_point s current_position target of
                                   Some clipped_target \<Rightarrow>
                                     (clipped_target,
                                      if inside
                                      then report_message MSG_INSIDE_ZONE Message_Warning s
                                      else report_message MSG_BLOCKED_AT_WALL Message_Warning s)
                                 | None \<Rightarrow>
                                     (current_position,
                                      if inside
                                      then report_message MSG_INSIDE_ZONE Message_Warning s
                                      else report_message MSG_BLOCKED_AT_WALL Message_Warning s))
                           else (chain, s))))"

section \<open>M960 handlers\<close>

text \<open>
  \<open>prev\<close> is \<^verbatim>\<open>user_mcode.validate\<close>; it may rewrite the block. The function writes
  none of the file's static variables.
\<close>

definition mcode_validate ::
  "(parser_block_t \<Rightarrow> status_code_t \<times> parser_block_t) option \<Rightarrow> parser_block_t \<Rightarrow> plugin \<Rightarrow>
   status_code_t \<times> parser_block_t \<times> plugin" where
  "mcode_validate prev gc_block s =
     (let (state, gc1) =
            (if user_mcode gc_block = 960
             then (if words_p gc_block
                   then ((if values_p gc_block \<noteq> 0 \<and> values_p gc_block \<noteq> 1
                          then Status_GcodeValueOutOfRange else Status_OK),
                         gc_block\<lparr>words_p := False\<rparr>)
                   else (Status_OK, gc_block))
             else (Status_Unhandled, gc_block))
      in case prev of
           Some f \<Rightarrow> if state = Status_Unhandled
                     then (fst (f gc1), snd (f gc1), s)
                     else (state, gc1, s)
         | None \<Rightarrow> (state, gc1, s))"

text \<open>
  \<open>check_mode\<close> is the host's constant \<^verbatim>\<open>STATE_CHECK_MODE\<close>, \<open>state\<close> the state word
  the host passes. The chained \<^verbatim>\<open>user_mcode.execute\<close> acts on the host only.
\<close>

definition mcode_execute :: "nat \<Rightarrow> nat \<Rightarrow> parser_block_t \<Rightarrow> plugin \<Rightarrow> plugin" where
  "mcode_execute check_mode state gc_block s =
     (if user_mcode gc_block \<noteq> 960 then s
      else if state = check_mode then s
      else if words_p gc_block
      then set_keepout_state (values_p gc_block = 1) SOURCE_COMMAND s
      else report_message MSG_USAGE Message_Info s)"

section \<open>Save, restore and load\<close>

definition atci_save :: "plugin \<Rightarrow> plugin" where
  "atci_save s = (let s1 = keepout_set s in s1\<lparr>nvs := Some (config s1)\<rparr>)"

definition default_config :: atci_config_t where
  "default_config =
     \<lparr>cfg_x_min = 10, cfg_y_min = 10, cfg_x_max = 50, cfg_y_max = 50,
      plugin_enabled = False, monitor_rack_presence = False, monitor_tc_macro = False\<rparr>"

definition atci_restore :: "plugin \<Rightarrow> plugin" where
  "atci_restore s =
     s\<lparr>config := default_config,
       atci := (atci s)\<lparr>enabled := True, source := SOURCE_STARTUP, last_pin_state := False\<rparr>,
       nvs := Some default_config\<rparr>"

definition atci_load :: "plugin \<Rightarrow> plugin" where
  "atci_load s =
     (let s1 = (case nvs s of Some c \<Rightarrow> s\<lparr>config := c\<rparr> | None \<Rightarrow> atci_restore s);
          s2 = keepout_set s1;
          s3 = set_keepout_state True SOURCE_STARTUP s2;
          s4 = s3\<lparr>tc_macro_running := False\<rparr>
      in task_add_delayed 1000 s4)"

section \<open>Realtime report\<close>

definition source_flag :: "keepout_source_t \<Rightarrow> string" where
  "source_flag src =
     (case src of
        SOURCE_RACK \<Rightarrow> ''R''
      | SOURCE_COMMAND \<Rightarrow> ''M''
      | SOURCE_MACRO \<Rightarrow> ''T''
      | SOURCE_STARTUP \<Rightarrow> ''S'')"

text \<open>The characters stored into \<^verbatim>\<open>flags[f++]\<close>, in the order of the stores.\<close>

definition realtime_flags :: "plugin \<Rightarrow> string" where
  "realtime_flags s =
     (let flags = source_flag (source (atci s));
          flags = (if enabled (atci s) then flags @ ''E'' else flags);
          flags = (if monitor_rack_presence (config s) \<and> last_pin_state (atci s)
                   then flags @ ''I'' else flags);
          flags = (if drawbar_state s then flags @ ''B'' else flags);
          flags = (if tool_sensor_state s then flags @ ''L'' else flags);
          flags = (if pressure_sensor_state s then flags @ ''P'' else flags);
          flags = (if inside_keepout_zone s then flags @ ''Z'' else flags)
      in flags)"

text \<open>
  \<open>prev\<close> is \<^verbatim>\<open>on_realtime_report\<close>, called after the plugin's own write with the same
  stream.
\<close>

definition onRealtimeReport :: "(string list \<Rightarrow> string list) option \<Rightarrow> plugin \<Rightarrow> plugin" where
  "onRealtimeReport prev s =
     (let s1 = s\<lparr>stream := stream s @ [''|ATCI:'' @ realtime_flags s]\<rparr>
      in case prev of
           Some f \<Rightarrow> s1\<lparr>stream := f (stream s1)\<rparr>
         | None \<Rightarrow> s1)"

section \<open>Power-on state\<close>

text \<open>
  The static variables as C initialises them (zero, \<^verbatim>\<open>false\<close>, the first enumerator),
  with nothing reported or queued yet, and the first step of \<^verbatim>\<open>atci_init\<close>, the call of
  \<^verbatim>\<open>atci_load\<close>, on a given content of the non-volatile storage.
\<close>

definition power_on :: plugin where
  "power_on =
     \<lparr>config = \<lparr>cfg_x_min = 0, cfg_y_min = 0, cfg_x_max = 0, cfg_y_max = 0,
                 plugin_enabled = False, monitor_rack_presence = False,
                 monitor_tc_macro = False\<rparr>,
      atci = \<lparr>x_min = 0, y_min = 0, x_max = 0, y_max = 0, enabled = False,
               source = SOURCE_STARTUP, last_pin_state = False\<rparr>,
      tc_macro_running = False, drawbar_state = False, tool_sensor_state = False,
      pressure_sensor_state = False, inside_keepout_zone = False,
      nvs = None, messages = [], tasks = [], stream = []\<rparr>"

definition boot :: "atci_config_t option \<Rightarrow> plugin" where
  "boot stored = atci_load (power_on\<lparr>nvs := stored\<rparr>)"

section \<open>Specification predicates\<close>

text \<open>The point of the segment at parameter \<open>t\<close>, in exact arithmetic, lies in the closed
  rectangle.\<close>

definition inside_at :: "plugin \<Rightarrow> real \<Rightarrow> real \<Rightarrow> real \<Rightarrow> real \<Rightarrow> real \<Rightarrow> bool" where
  "inside_at s x0 y0 x1 y1 t =
     technically_inside s (x0 + t * (x1 - x0)) (y0 + t * (y1 - y0))"



text \<open>The point lies more than the tolerance inside every boundary, in exact arithmetic.\<close>

definition more_than_tolerance_inside :: "plugin \<Rightarrow> real \<Rightarrow> real \<Rightarrow> bool" where
  "more_than_tolerance_inside s x y =
     (x_min (atci s) + KEEPOUT_TOLERANCE < x \<and> x < x_max (atci s) - KEEPOUT_TOLERANCE \<and>
      y_min (atci s) + KEEPOUT_TOLERANCE < y \<and> y < y_max (atci s) - KEEPOUT_TOLERANCE)"

text \<open>The four runtime bounds are binary32 values, as every \<^verbatim>\<open>float\<close> variable is.\<close>

definition bounds_representable :: "plugin \<Rightarrow> bool" where
  "bounds_representable s =
     (binary32 (x_min (atci s)) = x_min (atci s) \<and> binary32 (x_max (atci s)) = x_max (atci s) \<and>
      binary32 (y_min (atci s)) = y_min (atci s) \<and> binary32 (y_max (atci s)) = y_max (atci s))"




text \<open>
  The segment stays on the outer side of one of the four boundary lines and meets that
  line in at most one of its endpoints.
\<close>

definition beyond_one_line :: "plugin \<Rightarrow> real \<Rightarrow> real \<Rightarrow> real \<Rightarrow> real \<Rightarrow> bool" where
  "beyond_one_line s x0 y0 x1 y1 =
     (x0 \<le> x_min (atci s) \<and> x1 \<le> x_min (atci s) \<and> (x0 < x_min (atci s) \<or> x1 < x_min (atci s)) \<or>
      x_max (atci s) \<le> x0 \<and> x_max (atci s) \<le> x1 \<and> (x_max (atci s) < x0 \<or> x_max (atci s) < x1) \<or>
      y0 \<le> y_min (atci s) \<and> y1 \<le> y_min (atci s) \<and> (y0 < y_min (atci s) \<or> y1 < y_min (atci s)) \<or>
      y_max (atci s) \<le> y0 \<and> y_max (atci s) \<le> y1 \<and> (y_max (atci s) < y0 \<or> y_max (atci s) < y1))"

text \<open>
  A half-plane \<open>(p, q)\<close> of the loop that leaves no parameter interval of positive length
  inside \<open>[0, 1]\<close>: it rejects outright, or enters at \<open>1\<close> or later, or leaves at \<open>0\<close> or
  earlier.
\<close>

definition shuts_out :: "real \<times> real \<Rightarrow> bool" where
  "shuts_out pq =
     (case pq of (p, q) \<Rightarrow>
        p = 0 \<and> q < 0 \<or> p < 0 \<and> 1 \<le> binary32 (q / p) \<or> 0 < p \<and> binary32 (q / p) \<le> 0)"

text \<open>The runtime bounds are ordered; they are the normalised stored bounds.\<close>

definition bounds_ordered :: "plugin \<Rightarrow> bool" where
  "bounds_ordered s = (x_min (atci s) \<le> x_max (atci s) \<and> y_min (atci s) \<le> y_max (atci s))"

definition bounds_in_sync :: "plugin \<Rightarrow> bool" where
  "bounds_in_sync s =
     (x_min (atci s) = min (cfg_x_min (config s)) (cfg_x_max (config s)) \<and>
      x_max (atci s) = max (cfg_x_min (config s)) (cfg_x_max (config s)) \<and>
      y_min (atci s) = min (cfg_y_min (config s)) (cfg_y_max (config s)) \<and>
      y_max (atci s) = max (cfg_y_min (config s)) (cfg_y_max (config s)))"

section \<open>Example configurations\<close>

text \<open>
  A stored record that switches the plugin and both monitors on, with the default zone
  \<open>[10, 50] \<times> [10, 50]\<close>, and the state after start-up on it.
\<close>

definition enforcing_config :: atci_config_t where
  "enforcing_config =
     default_config\<lparr>plugin_enabled := True, monitor_rack_presence := True,
                    monitor_tc_macro := True\<rparr>"

definition enforcing :: plugin where
  "enforcing = boot (Some enforcing_config)"

text \<open>The same with the zone \<open>[-20, 20] \<times> [-20, 20]\<close>, which holds the machine origin.\<close>

definition around_origin_config :: atci_config_t where
  "around_origin_config =
     enforcing_config\<lparr>cfg_x_min := - 20, cfg_y_min := - 20, cfg_x_max := 20, cfg_y_max := 20\<rparr>"

definition around_origin :: plugin where
  "around_origin = boot (Some around_origin_config)"

text \<open>A stored record whose x bounds are written in the reverse order.\<close>

definition crossed_config :: atci_config_t where
  "crossed_config =
     default_config\<lparr>cfg_x_min := 200, cfg_x_max := 100, cfg_y_min := 100, cfg_y_max := 200\<rparr>"

text \<open>Pin levels with the rack installed (its input pulled low) and with the rack absent;
  the three auxiliary sensors are idle (high).\<close>

definition rack_present :: digital_in where
  "rack_present = \<lparr>AUXINPUT7 = False, AUXINPUT0 = True, AUXINPUT1 = True, AUXINPUT2 = True\<rparr>"

definition rack_absent :: digital_in where
  "rack_absent = \<lparr>AUXINPUT7 = True, AUXINPUT0 = True, AUXINPUT1 = True, AUXINPUT2 = True\<rparr>"

definition at_xy :: "real \<Rightarrow> real \<Rightarrow> real list \<Rightarrow> coord" where
  "at_xy x y rest = \<lparr>X_AXIS = x, Y_AXIS = y, other_axes = rest\<rparr>"

section \<open>Properties of the rounding\<close>

text \<open>The equations that evaluate \<open>binary32\<close> on a numeral.\<close>

lemmas binary32_eval =
  binary32_def binary32_ulp_def round_half_even_def binary32_ulp_down.simps binary32_ulp_up.simps

subsection \<open>Rounding to the nearest integer, ties to even\<close>

lemma round_half_even_cases:
  "round_half_even m = \<lfloor>m\<rfloor> \<and> m - of_int \<lfloor>m\<rfloor> \<le> 1 / 2
   \<or> round_half_even m = \<lfloor>m\<rfloor> + 1 \<and> 1 / 2 \<le> m - of_int \<lfloor>m\<rfloor>"
  by (auto simp: round_half_even_def Let_def)


lemma round_half_even_ge: "of_int k \<le> m \<Longrightarrow> k \<le> round_half_even m"
proof -
  assume "of_int k \<le> m"
  then have "k \<le> \<lfloor>m\<rfloor>" by (simp add: le_floor_iff)
  with round_half_even_cases [of m] show ?thesis by auto
qed

lemma round_half_even_le: "m \<le> of_int k \<Longrightarrow> round_half_even m \<le> k"
proof -
  assume h: "m \<le> of_int k"
  show ?thesis
  proof (cases "m = of_int k")
    case True
    then show ?thesis by (simp add: round_half_even_def)
  next
    case False
    with h have "m < of_int k" by simp
    then have "\<lfloor>m\<rfloor> < k" by (simp add: floor_less_iff)
    with round_half_even_cases [of m] show ?thesis by auto
  qed
qed

lemma round_half_even_mono: "m \<le> m' \<Longrightarrow> round_half_even m \<le> round_half_even m'"
proof -
  assume h: "m \<le> m'"
  then have fl: "\<lfloor>m\<rfloor> \<le> \<lfloor>m'\<rfloor>" by (rule floor_mono)
  show ?thesis
  proof (cases "\<lfloor>m\<rfloor> = \<lfloor>m'\<rfloor>")
    case True
    with h show ?thesis
      by (auto simp: round_half_even_def Let_def)
  next
    case False
    with fl have "\<lfloor>m\<rfloor> + 1 \<le> \<lfloor>m'\<rfloor>" by simp
    moreover have "round_half_even m \<le> \<lfloor>m\<rfloor> + 1"
      using round_half_even_cases [of m] by auto
    moreover have "\<lfloor>m'\<rfloor> \<le> round_half_even m'"
      using round_half_even_cases [of m'] by auto
    ultimately show ?thesis by simp
  qed
qed

subsection \<open>The spacing\<close>

lemma binary32_ulp_down_spec:
  "0 < a \<Longrightarrow> 0 < u \<Longrightarrow> \<exists>k :: int. u = 2 powr of_int k \<Longrightarrow>
     (\<exists>k :: int. binary32_ulp_down a u = 2 powr of_int k)
     \<and> 8388608 * binary32_ulp_down a u \<le> a"
proof (induction a u rule: binary32_ulp_down.induct)
  case (1 a u)
  show ?case
  proof (cases "a < 8388608 * u")
    case True
    from "1.prems"(3) obtain k :: int where "u = 2 powr of_int k" by blast
    then have "u / 2 = 2 powr of_int (k - 1)" by (simp add: powr_diff)
    then have "\<exists>k :: int. u / 2 = 2 powr of_int k" by blast
    with "1.IH" "1.prems" True
    have "(\<exists>k :: int. binary32_ulp_down a (u / 2) = 2 powr of_int k)
        \<and> 8388608 * binary32_ulp_down a (u / 2) \<le> a" by simp
    with "1.prems" True show ?thesis by (simp add: binary32_ulp_down.simps [of a u])
  next
    case False
    with "1.prems" show ?thesis by (simp add: binary32_ulp_down.simps [of a u])
  qed
qed

lemma binary32_ulp_up_spec:
  "0 < a \<Longrightarrow> 0 < u \<Longrightarrow> \<exists>k :: int. u = 2 powr of_int k \<Longrightarrow> 8388608 * u \<le> a \<Longrightarrow>
     (\<exists>k :: int. binary32_ulp_up a u = 2 powr of_int k)
     \<and> 8388608 * binary32_ulp_up a u \<le> a \<and> a < 16777216 * binary32_ulp_up a u"
proof (induction a u rule: binary32_ulp_up.induct)
  case (1 a u)
  show ?case
  proof (cases "16777216 * u \<le> a")
    case True
    from "1.prems"(3) obtain k :: int where "u = 2 powr of_int k" by blast
    then have "2 * u = 2 powr of_int (k + 1)" by (simp add: powr_add)
    then have "\<exists>k :: int. 2 * u = 2 powr of_int k" by blast
    with "1.IH" "1.prems" True
    have "(\<exists>k :: int. binary32_ulp_up a (2 * u) = 2 powr of_int k)
        \<and> 8388608 * binary32_ulp_up a (2 * u) \<le> a
        \<and> a < 16777216 * binary32_ulp_up a (2 * u)" by simp
    with "1.prems" True show ?thesis by (simp add: binary32_ulp_up.simps [of a u])
  next
    case False
    with "1.prems" show ?thesis by (simp add: binary32_ulp_up.simps [of a u])
  qed
qed

lemma binary32_ulp_spec:
  assumes "0 < a"
  shows "(\<exists>k :: int. binary32_ulp a = 2 powr of_int k)
       \<and> 8388608 * binary32_ulp a \<le> a \<and> a < 16777216 * binary32_ulp a"
proof -
  have one: "\<exists>k :: int. (1 :: real) = 2 powr of_int k"
    by (rule exI [of _ 0]) simp
  from binary32_ulp_down_spec [OF assms zero_less_one one]
  obtain k :: int where k: "binary32_ulp_down a 1 = 2 powr of_int k"
    and le: "8388608 * binary32_ulp_down a 1 \<le> a" by blast
  from k have pos: "0 < binary32_ulp_down a 1" by simp
  from k have "\<exists>k :: int. binary32_ulp_down a 1 = 2 powr of_int k" by blast
  from binary32_ulp_up_spec [OF assms pos this le] show ?thesis
    by (simp add: binary32_ulp_def)
qed

lemma binary32_ulp_pos: "0 < a \<Longrightarrow> 0 < binary32_ulp a"
  using binary32_ulp_spec [of a] by auto

subsection \<open>Sign, order and error of the rounding\<close>

lemma binary32_zero: "binary32 0 = 0"
  by (simp add: binary32_def)

lemma binary32_minus: "binary32 (- x) = - binary32 x"
  by (simp add: binary32_def)

lemma binary32_pos_eq:
  "0 < x \<Longrightarrow> binary32 x = of_int (round_half_even (x / binary32_ulp x)) * binary32_ulp x"
  by (simp add: binary32_def)

lemma binary32_lower:
  assumes "0 < x"
  shows "8388608 * binary32_ulp x \<le> binary32 x"
proof -
  from binary32_ulp_spec [OF assms] have u: "0 < binary32_ulp x"
    and le: "8388608 * binary32_ulp x \<le> x" by auto
  from le u have "of_int 8388608 \<le> x / binary32_ulp x" by (simp add: pos_le_divide_eq)
  then have "8388608 \<le> round_half_even (x / binary32_ulp x)" by (rule round_half_even_ge)
  then have "(8388608 :: real) \<le> of_int (round_half_even (x / binary32_ulp x))" by linarith
  with u show ?thesis
    by (simp add: binary32_pos_eq [OF assms] mult_right_mono)
qed

lemma binary32_upper:
  assumes "0 < x"
  shows "binary32 x \<le> 16777216 * binary32_ulp x"
proof -
  from binary32_ulp_spec [OF assms] have u: "0 < binary32_ulp x"
    and lt: "x < 16777216 * binary32_ulp x" by auto
  from lt u have "x / binary32_ulp x \<le> of_int 16777216" by (simp add: pos_divide_le_eq)
  then have "round_half_even (x / binary32_ulp x) \<le> 16777216" by (rule round_half_even_le)
  then have "of_int (round_half_even (x / binary32_ulp x)) \<le> (16777216 :: real)" by linarith
  with u show ?thesis
    by (simp add: binary32_pos_eq [OF assms] mult_right_mono)
qed

lemma binary32_pos: "0 < x \<Longrightarrow> 0 < binary32 x"
  using binary32_lower [of x] binary32_ulp_pos [of x] by simp

lemma binary32_neg: "x < 0 \<Longrightarrow> binary32 x < 0"
  using binary32_pos [of "- x"] by (simp add: binary32_minus)

lemma binary32_eq_zero_iff: "binary32 x = 0 \<longleftrightarrow> x = 0"
proof
  assume z: "binary32 x = 0"
  show "x = 0"
  proof (rule ccontr)
    assume "x \<noteq> 0"
    then consider "0 < x" | "x < 0" by linarith
    then show False
    proof cases
      case 1
      from binary32_pos [OF this] z show False by simp
    next
      case 2
      from binary32_neg [OF this] z show False by simp
    qed
  qed
next
  assume "x = 0"
  then show "binary32 x = 0" by (simp add: binary32_zero)
qed

lemma binary32_mono_pos:
  assumes "0 < x" and "x \<le> y"
  shows "binary32 x \<le> binary32 y"
proof -
  from assms have y: "0 < y" by simp
  from binary32_ulp_spec [OF assms(1)] obtain i :: int where
    i: "binary32_ulp x = 2 powr of_int i"
    and xl: "8388608 * binary32_ulp x \<le> x" and xu: "x < 16777216 * binary32_ulp x" by blast
  from binary32_ulp_spec [OF y] obtain j :: int where
    j: "binary32_ulp y = 2 powr of_int j"
    and yl: "8388608 * binary32_ulp y \<le> y" and yu: "y < 16777216 * binary32_ulp y" by blast
  from xl assms(2) yu have "8388608 * binary32_ulp x < 8388608 * (2 * binary32_ulp y)" by simp
  then have "(2 :: real) powr of_int i < 2 powr of_int (j + 1)"
    by (simp add: i j powr_add)
  then have ij: "i \<le> j" by simp
  show ?thesis
  proof (cases "i = j")
    case True
    then have same: "binary32_ulp x = binary32_ulp y" by (simp add: i j)
    have u: "0 < binary32_ulp y" by (simp add: j)
    from assms(2) u have "x / binary32_ulp y \<le> y / binary32_ulp y"
      by (simp add: divide_right_mono)
    then have "round_half_even (x / binary32_ulp y) \<le> round_half_even (y / binary32_ulp y)"
      by (rule round_half_even_mono)
    then have "(of_int (round_half_even (x / binary32_ulp y)) :: real)
        \<le> of_int (round_half_even (y / binary32_ulp y))" by simp
    with u show ?thesis
      by (simp add: binary32_pos_eq [OF assms(1)] binary32_pos_eq [OF y] same mult_right_mono)
  next
    case False
    with ij have "i + 1 \<le> j" by simp
    then have "(2 :: real) powr of_int (i + 1) \<le> 2 powr of_int j" by simp
    then have "2 * binary32_ulp x \<le> binary32_ulp y" by (simp add: i j powr_add)
    with binary32_upper [OF assms(1)] binary32_lower [OF y] show ?thesis by simp
  qed
qed


lemma binary32_one: "binary32 1 = 1"
  by (simp add: binary32_eval)

lemma binary32_nonneg: "0 \<le> x \<Longrightarrow> 0 \<le> binary32 x"
  using binary32_pos [of x] by (cases "x = 0") (simp_all add: binary32_zero less_imp_le)

lemma binary32_nonpos: "x \<le> 0 \<Longrightarrow> binary32 x \<le> 0"
  using binary32_neg [of x] by (cases "x = 0") (simp_all add: binary32_zero less_imp_le)

lemma binary32_mono:
  assumes "x \<le> y"
  shows "binary32 x \<le> binary32 y"
proof -
  consider "0 < x" | "x \<le> 0" "0 \<le> y" | "y < 0" by linarith
  then show ?thesis
  proof cases
    case 1
    from binary32_mono_pos [OF this assms] show ?thesis .
  next
    case 2
    from binary32_nonpos [OF 2(1)] binary32_nonneg [OF 2(2)] show ?thesis by simp
  next
    case 3
    then have "0 < - y" by simp
    moreover from assms have "- y \<le> - x" by simp
    ultimately have "binary32 (- y) \<le> binary32 (- x)" by (rule binary32_mono_pos)
    then show ?thesis by (simp add: binary32_minus)
  qed
qed

section \<open>The clipping loop\<close>

text \<open>The loop only raises \<open>t0\<close> and only lowers \<open>t1\<close>, and keeps \<open>t0 \<le> t1\<close>.\<close>

lemma clip_loop_range:
  "clip_loop pqs t0 t1 = Some (a, b) \<Longrightarrow> t0 \<le> a \<and> b \<le> t1"
proof (induction pqs t0 t1 rule: clip_loop.induct)
  case (1 t0 t1)
  then show ?case by simp
next
  case (2 p q pqs t0 t1)
  then show ?case
    by (fastforce simp: Let_def split: if_splits)
qed



text \<open>With every \<open>q\<close> positive the loop ends with \<open>t0 = 0 < t1\<close>.\<close>

lemma clip_loop_positive:
  "list_all (\<lambda>(p, q). 0 < q) pqs \<Longrightarrow> 0 < t1 \<Longrightarrow>
     \<exists>b. clip_loop pqs 0 t1 = Some (0, b) \<and> 0 < b"
proof (induction pqs arbitrary: t1)
  case Nil
  then show ?case by simp
next
  case (Cons pq pqs)
  obtain p q where pq: "pq = (p, q)" by (cases pq)
  from Cons.prems pq have q: "0 < q" and rest: "list_all (\<lambda>(p, q). 0 < q) pqs"
    by simp_all
  show ?case
  proof (cases "p = 0")
    case True
    with q pq Cons.IH [OF rest Cons.prems(2)] show ?thesis by simp
  next
    case False
    show ?thesis
    proof (cases "p < 0")
      case True
      with q have "q / p < 0" by (simp add: divide_pos_neg)
      then have "binary32 (q / p) < 0" by (rule binary32_neg)
      with True pq Cons.IH [OF rest Cons.prems(2)] Cons.prems(2) show ?thesis
        by (simp add: Let_def)
    next
      case pos: False
      with False have "0 < p" by simp
      with q have "0 < q / p" by simp
      then have t: "0 < binary32 (q / p)" by (rule binary32_pos)
      then have "0 < (if binary32 (q / p) < t1 then binary32 (q / p) else t1)"
        using Cons.prems(2) by simp
      from Cons.IH [OF rest this] False pos t pq show ?thesis
        by (simp add: Let_def)
    qed
  qed
qed

text \<open>With no \<open>q\<close> negative the entry parameter stays at \<open>0\<close>.\<close>

lemma clip_loop_start_inside:
  "list_all (\<lambda>(p, q). 0 \<le> q) pqs \<Longrightarrow> clip_loop pqs 0 t1 = Some (a, b) \<Longrightarrow> a = 0"
proof (induction pqs arbitrary: t1)
  case Nil
  then show ?case by simp
next
  case (Cons pq pqs)
  obtain p q where pq: "pq = (p, q)" by (cases pq)
  from Cons.prems pq have q: "0 \<le> q" and rest: "list_all (\<lambda>(p, q). 0 \<le> q) pqs"
    by simp_all
  show ?case
  proof (cases "p < 0")
    case True
    with q have "q / p \<le> 0" by (simp add: divide_nonneg_neg)
    then have "binary32 (q / p) \<le> 0" by (rule binary32_nonpos)
    with True pq Cons.prems(2) Cons.IH [OF rest] show ?thesis
      by (auto simp: Let_def split: if_splits)
  next
    case False
    with pq Cons.prems(2) Cons.IH [OF rest] show ?thesis
      by (auto simp: Let_def split: if_splits)
  qed
qed

text \<open>One half-plane that shuts the segment out is enough for the loop not to end with
  \<open>t0 < t1\<close>.\<close>

lemma clip_loop_shut_out:
  "list_ex shuts_out pqs \<Longrightarrow> 0 \<le> t0 \<Longrightarrow> t1 \<le> 1 \<Longrightarrow>
     clip_loop pqs t0 t1 = Some (a, b) \<Longrightarrow> b \<le> a"
proof (induction pqs t0 t1 rule: clip_loop.induct)
  case (1 t0 t1)
  then show ?case by simp
next
  case (2 p q pqs t0 t1)
  show ?case
  proof (cases "shuts_out (p, q)")
    case True
    note rng = clip_loop_range [of pqs _ _ a b]
    from True consider "p = 0" "q < 0" | "p < 0" "1 \<le> binary32 (q / p)"
      | "0 < p" "binary32 (q / p) \<le> 0"
      by (auto simp: shuts_out_def)
    then show ?thesis
    proof cases
      case 1
      with "2.prems"(4) show ?thesis by simp
    next
      case 2
      with "2.prems" have t: "binary32 (q / p) = t1" and "t1 = 1"
        by (auto simp: Let_def split: if_splits)
      with 2 "2.prems" have "clip_loop pqs (if t1 > t0 then t1 else t0) t1 = Some (a, b)"
        by (simp add: Let_def split: if_splits)
      from rng [OF this] show ?thesis by (auto split: if_splits)
    next
      case 3
      with "2.prems" have t: "binary32 (q / p) = t0" and "t0 = 0"
        by (auto simp: Let_def split: if_splits)
      with 3 "2.prems" have "clip_loop pqs t0 (if t0 < t1 then t0 else t1) = Some (a, b)"
        by (simp add: Let_def split: if_splits)
      from rng [OF this] show ?thesis by (auto split: if_splits)
    qed
  next
    case False
    with "2.prems"(1) have rest: "list_ex shuts_out pqs" by simp
    show ?thesis
    proof (cases "p = 0")
      case True
      with "2.prems" "2.IH"(1) rest show ?thesis by (simp split: if_splits)
    next
      case nz: False
      show ?thesis
      proof (cases "p < 0")
        case True
        with nz "2.prems" have le: "\<not> binary32 (q / p) > t1"
          and run: "clip_loop pqs (if binary32 (q / p) > t0 then binary32 (q / p) else t0) t1
                      = Some (a, b)"
          by (auto simp: Let_def split: if_splits)
        from "2.prems"(2) have "0 \<le> (if binary32 (q / p) > t0 then binary32 (q / p) else t0)"
          by simp
        from "2.IH"(2) [OF nz refl True le rest this "2.prems"(3) run] show ?thesis .
      next
        case pos: False
        with nz "2.prems" have ge: "\<not> binary32 (q / p) < t0"
          and run: "clip_loop pqs t0 (if binary32 (q / p) < t1 then binary32 (q / p) else t1)
                      = Some (a, b)"
          by (auto simp: Let_def split: if_splits)
        from "2.prems"(3) have "(if binary32 (q / p) < t1 then binary32 (q / p) else t1) \<le> 1"
          by simp
        from "2.IH"(3) [OF nz refl pos ge rest "2.prems"(2) this run] show ?thesis .
      qed
    qed
  qed
qed

text \<open>The half-planes of a boundary line shut out a segment that stays beyond the line.\<close>

lemma shuts_out_low:
  assumes "a \<le> m" and "b \<le> m" and "a < m \<or> b < m"
  shows "shuts_out (- binary32 (b - a), binary32 (a - m))"
proof (cases "a < m")
  case True
  then have q: "binary32 (a - m) < 0" by (simp add: binary32_neg)
  consider "b = a" | "b < a" | "a < b" by linarith
  then show ?thesis
  proof cases
    case 1
    with q show ?thesis by (simp add: shuts_out_def binary32_zero)
  next
    case 2
    then have p: "0 < - binary32 (b - a)" by (simp add: binary32_neg)
    from q p have "binary32 (a - m) / (- binary32 (b - a)) < 0" by (rule divide_neg_pos)
    then have "binary32 (a - m) / (- binary32 (b - a)) \<le> 0" by simp
    then have "binary32 (binary32 (a - m) / (- binary32 (b - a))) \<le> 0"
      by (rule binary32_nonpos)
    with p show ?thesis unfolding shuts_out_def prod.case by blast
  next
    case 3
    then have d: "0 < binary32 (b - a)" by (simp add: binary32_pos)
    from 3 assms(2) have "binary32 (b - a) \<le> binary32 (m - a)"
      by (simp add: binary32_mono)
    with d have "1 \<le> binary32 (m - a) / binary32 (b - a)" by (simp add: pos_le_divide_eq)
    then have "binary32 1 \<le> binary32 (binary32 (m - a) / binary32 (b - a))"
      by (rule binary32_mono)
    moreover have "binary32 (a - m) / (- binary32 (b - a)) = binary32 (m - a) / binary32 (b - a)"
      using binary32_minus [of "m - a"] by simp
    ultimately show ?thesis using d by (simp add: shuts_out_def binary32_one)
  qed
next
  case False
  with assms have a: "a = m" and b: "b < m" by simp_all
  then have "0 < - binary32 (b - a)" by (simp add: binary32_neg)
  with a show ?thesis by (simp add: shuts_out_def binary32_zero)
qed

lemma shuts_out_high:
  assumes "m \<le> a" and "m \<le> b" and "m < a \<or> m < b"
  shows "shuts_out (binary32 (b - a), binary32 (m - a))"
proof -
  from assms have "- a \<le> - m" and "- b \<le> - m" and "- a < - m \<or> - b < - m" by simp_all
  from shuts_out_low [OF this]
  have "shuts_out (- binary32 (- b - - a), binary32 (- a - - m))" .
  moreover have "- binary32 (- b - - a) = binary32 (b - a)"
    using binary32_minus [of "b - a"] by simp
  ultimately show ?thesis by simp
qed

section \<open>The loop on a segment and a rectangle\<close>

lemma clip_interval_run:
  "clip_interval s x0 y0 x1 y1 =
     clip_loop [(- binary32 (x1 - x0), binary32 (x0 - x_min (atci s))),
                (binary32 (x1 - x0), binary32 (x_max (atci s) - x0)),
                (- binary32 (y1 - y0), binary32 (y0 - y_min (atci s))),
                (binary32 (y1 - y0), binary32 (y_max (atci s) - y0))] 0 1"
  by (simp only: clip_interval_def Let_def zip_Cons_Cons zip_Nil)


lemma clip_interval_strictly_inside:
  assumes "x_min (atci s) < x0" and "x0 < x_max (atci s)"
    and "y_min (atci s) < y0" and "y0 < y_max (atci s)"
  shows "\<exists>b. clip_interval s x0 y0 x1 y1 = Some (0, b) \<and> 0 < b"
proof -
  have "list_all (\<lambda>(p, q). 0 < q)
          [(- binary32 (x1 - x0), binary32 (x0 - x_min (atci s))),
           (binary32 (x1 - x0), binary32 (x_max (atci s) - x0)),
           (- binary32 (y1 - y0), binary32 (y0 - y_min (atci s))),
           (binary32 (y1 - y0), binary32 (y_max (atci s) - y0))]"
    using assms by (simp add: binary32_pos)
  from clip_loop_positive [OF this zero_less_one] show ?thesis
    unfolding clip_interval_run .
qed

lemma clip_interval_start_inside:
  assumes "technically_inside s x0 y0" and "clip_interval s x0 y0 x1 y1 = Some (a, b)"
  shows "a = 0"
proof -
  have "list_all (\<lambda>(p, q). 0 \<le> q)
          [(- binary32 (x1 - x0), binary32 (x0 - x_min (atci s))),
           (binary32 (x1 - x0), binary32 (x_max (atci s) - x0)),
           (- binary32 (y1 - y0), binary32 (y0 - y_min (atci s))),
           (binary32 (y1 - y0), binary32 (y_max (atci s) - y0))]"
    using assms(1) by (simp add: technically_inside_def binary32_nonneg)
  from clip_loop_start_inside [OF this assms(2) [unfolded clip_interval_run]]
  show ?thesis .
qed


lemma clip_interval_beyond:
  assumes "beyond_one_line s x0 y0 x1 y1" and "clip_interval s x0 y0 x1 y1 = Some (a, b)"
  shows "b \<le> a"
proof -
  have "shuts_out (- binary32 (x1 - x0), binary32 (x0 - x_min (atci s)))
      \<or> shuts_out (binary32 (x1 - x0), binary32 (x_max (atci s) - x0))
      \<or> shuts_out (- binary32 (y1 - y0), binary32 (y0 - y_min (atci s)))
      \<or> shuts_out (binary32 (y1 - y0), binary32 (y_max (atci s) - y0))"
    using assms(1) unfolding beyond_one_line_def
    by (blast intro: shuts_out_low shuts_out_high)
  then have "list_ex shuts_out
          [(- binary32 (x1 - x0), binary32 (x0 - x_min (atci s))),
           (binary32 (x1 - x0), binary32 (x_max (atci s) - x0)),
           (- binary32 (y1 - y0), binary32 (y0 - y_min (atci s))),
           (binary32 (y1 - y0), binary32 (y_max (atci s) - y0))]"
    by simp
  from clip_loop_shut_out [OF this _ _ assms(2) [unfolded clip_interval_run]]
  show ?thesis by simp
qed

lemma line_intersects_keepout_beyond:
  "beyond_one_line s x0 y0 x1 y1 \<Longrightarrow> \<not> line_intersects_keepout s x0 y0 x1 y1"
  using clip_interval_beyond [of s x0 y0 x1 y1]
  by (auto simp: line_intersects_keepout_def split: option.splits)

lemma line_intersects_keepout_strictly_inside:
  assumes "x_min (atci s) < x0" and "x0 < x_max (atci s)"
    and "y_min (atci s) < y0" and "y0 < y_max (atci s)"
  shows "line_intersects_keepout s x0 y0 x1 y1"
  using clip_interval_strictly_inside [OF assms, of x1 y1]
  by (auto simp: line_intersects_keepout_def)


section \<open>The clipped point\<close>







lemma calculate_clipped_point_with_Some:
  "calculate_clipped_point_with fused s start end_pt = Some c \<longleftrightarrow>
     (\<exists>t0 t1. clip_interval s (X_AXIS start) (Y_AXIS start) (X_AXIS end_pt) (Y_AXIS end_pt)
                = Some (t0, t1)
        \<and> 0 < t0
        \<and> c = end_pt\<lparr>X_AXIS := mul_add fused (X_AXIS start) t0
                                    (binary32 (X_AXIS end_pt - X_AXIS start)),
                      Y_AXIS := mul_add fused (Y_AXIS start) t0
                                    (binary32 (Y_AXIS end_pt - Y_AXIS start))\<rparr>)"
  by (auto simp: calculate_clipped_point_with_def Let_def split: option.splits)

lemma calculate_clipped_point_with_None:
  "calculate_clipped_point_with fused s start end_pt = None \<longleftrightarrow>
     clip_interval s (X_AXIS start) (Y_AXIS start) (X_AXIS end_pt) (Y_AXIS end_pt) = None
     \<or> (\<exists>t0 t1. clip_interval s (X_AXIS start) (Y_AXIS start) (X_AXIS end_pt) (Y_AXIS end_pt)
                  = Some (t0, t1) \<and> t0 \<le> 0)"
  by (auto simp: calculate_clipped_point_with_def Let_def split: option.splits)

lemma calculate_clipped_point_with_inside:
  assumes "technically_inside s (X_AXIS start) (Y_AXIS start)"
  shows "calculate_clipped_point_with fused s start end_pt = None"
  using clip_interval_start_inside [OF assms]
  by (fastforce simp: calculate_clipped_point_with_None
      simp del: not_None_eq split: option.splits)


section \<open>The example states, evaluated\<close>

lemma enforcing_config_simps:
  "cfg_x_min enforcing_config = 10" "cfg_y_min enforcing_config = 10"
  "cfg_x_max enforcing_config = 50" "cfg_y_max enforcing_config = 50"
  "plugin_enabled enforcing_config" "monitor_rack_presence enforcing_config"
  "monitor_tc_macro enforcing_config"
  by (simp_all add: enforcing_config_def default_config_def)

lemma enforcing_eq:
  "enforcing =
     \<lparr>config = enforcing_config,
      atci = \<lparr>x_min = 10, y_min = 10, x_max = 50, y_max = 50, enabled = True,
               source = SOURCE_STARTUP, last_pin_state = False\<rparr>,
      tc_macro_running = False, drawbar_state = False, tool_sensor_state = False,
      pressure_sensor_state = False, inside_keepout_zone = False,
      nvs = Some enforcing_config, messages = [], tasks = [1000], stream = []\<rparr>"
  by (simp add: enforcing_def boot_def atci_load_def power_on_def keepout_set_def
      set_keepout_state_def task_add_delayed_def enforcing_config_simps Let_def)

lemma enforcing_simps:
  "x_min (atci enforcing) = 10" "y_min (atci enforcing) = 10"
  "x_max (atci enforcing) = 50" "y_max (atci enforcing) = 50"
  "enabled (atci enforcing)" "source (atci enforcing) = SOURCE_STARTUP"
  "\<not> last_pin_state (atci enforcing)" "config enforcing = enforcing_config"
  "messages enforcing = []"
  by (simp_all add: enforcing_eq)

lemma enforcing_active: "is_keepout_active enforcing"
  by (simp add: is_keepout_active_def enforcing_simps enforcing_config_simps)

lemma boot_None_eq:
  "boot None =
     \<lparr>config = default_config,
      atci = \<lparr>x_min = 10, y_min = 10, x_max = 50, y_max = 50, enabled = True,
               source = SOURCE_STARTUP, last_pin_state = False\<rparr>,
      tc_macro_running = False, drawbar_state = False, tool_sensor_state = False,
      pressure_sensor_state = False, inside_keepout_zone = False,
      nvs = Some default_config, messages = [], tasks = [1000], stream = []\<rparr>"
  by (simp add: boot_def atci_load_def atci_restore_def power_on_def keepout_set_def
      set_keepout_state_def task_add_delayed_def default_config_def Let_def)

lemma around_origin_eq:
  "around_origin =
     \<lparr>config = around_origin_config,
      atci = \<lparr>x_min = - 20, y_min = - 20, x_max = 20, y_max = 20, enabled = True,
               source = SOURCE_STARTUP, last_pin_state = False\<rparr>,
      tc_macro_running = False, drawbar_state = False, tool_sensor_state = False,
      pressure_sensor_state = False, inside_keepout_zone = False,
      nvs = Some around_origin_config, messages = [], tasks = [1000], stream = []\<rparr>"
  by (simp add: around_origin_def boot_def atci_load_def power_on_def keepout_set_def
      set_keepout_state_def task_add_delayed_def around_origin_config_def
      enforcing_config_simps enforcing_config_def default_config_def Let_def)

lemma around_origin_simps:
  "x_min (atci around_origin) = - 20" "y_min (atci around_origin) = - 20"
  "x_max (atci around_origin) = 20" "y_max (atci around_origin) = 20"
  "messages around_origin = []"
  by (simp_all add: around_origin_eq)

lemma around_origin_active: "is_keepout_active around_origin"
  by (simp add: is_keepout_active_def around_origin_eq around_origin_config_def
      enforcing_config_def)

text \<open>The single-precision values met in the examples.\<close>

lemma binary32_values:
  "binary32 (21 / 2) = 21 / 2" "binary32 (99 / 2) = 99 / 2"
  "binary32 10 = 10" "binary32 20 = 20" "binary32 30 = 30" "binary32 40 = 40"
  "binary32 50 = 50" "binary32 (1 / 3) = 11184811 / 33554432"
  "binary32 (5 / 3) = 13981013 / 8388608" "binary32 (3 / 5) = 5033165 / 8388608"
  by (simp_all add: binary32_eval)

lemma enforcing_deep:
  "strictly_deep_inside enforcing x y = (21 / 2 < x \<and> x < 99 / 2 \<and> 21 / 2 < y \<and> y < 99 / 2)"
  by (simp add: strictly_deep_inside_def enforcing_simps KEEPOUT_TOLERANCE_def binary32_values)




section \<open>Trap detection\<close>

text \<open>
  A start that is more than the tolerance inside every boundary, or that passes the
  code's test on bounds that are \<^verbatim>\<open>float\<close> values, is strictly inside the rectangle.
\<close>

lemma deep_inside_strictly_inside:
  assumes "more_than_tolerance_inside s x y
           \<or> strictly_deep_inside s x y \<and> bounds_representable s"
  shows "x_min (atci s) < x \<and> x < x_max (atci s) \<and> y_min (atci s) < y \<and> y < y_max (atci s)"
  using assms
proof
  assume "more_than_tolerance_inside s x y"
  then show ?thesis
    by (simp add: more_than_tolerance_inside_def KEEPOUT_TOLERANCE_def)
next
  assume h: "strictly_deep_inside s x y \<and> bounds_representable s"
  have lo: "binary32 m \<le> binary32 (m + KEEPOUT_TOLERANCE)" for m
    by (rule binary32_mono) (simp add: KEEPOUT_TOLERANCE_def)
  have hi: "binary32 (m - KEEPOUT_TOLERANCE) \<le> binary32 m" for m
    by (rule binary32_mono) (simp add: KEEPOUT_TOLERANCE_def)
  from h lo [of "x_min (atci s)"] hi [of "x_max (atci s)"]
    lo [of "y_min (atci s)"] hi [of "y_max (atci s)"]
  show ?thesis
    by (simp add: strictly_deep_inside_def bounds_representable_def)
qed

text \<open>
  Claim C1. When enforcement is active and the start position lies strictly more than
  the tolerance of 0.5 mm inside every normalised boundary, then for every destination
  the check path returns \<^verbatim>\<open>false\<close> and the apply path overwrites the target with the
  current position; both report the "inside zone" message. In the check path the start
  is the position the planner reports. The hypothesis is the claim's, in exact
  arithmetic; the theorem also covers the starts that pass the code's own test, with
  its rounded sums, on bounds that are \<^verbatim>\<open>float\<close> values. From a start strictly inside
  the rectangle every \<open>q\<close> is positive, also after rounding, so the loop keeps \<open>t0 = 0\<close>
  and ends with \<open>t1 > 0\<close>: a start of the first kind that fails the code's test is
  still blocked, through the intersection test and the clipping that returns none.
\<close>

theorem trap_detection:
  assumes "is_keepout_active s"
    and "more_than_tolerance_inside s (X_AXIS p) (Y_AXIS p)
         \<or> strictly_deep_inside s (X_AXIS p) (Y_AXIS p) \<and> bounds_representable s"
  shows "travel_limits_check prev_check (Some p) s target axes is_cartesian envelope
           = (False, report_message MSG_INSIDE_ZONE Message_Warning s)
       \<and> keepout_apply_travel_limits prev_apply s target p envelope'
           = (p, report_message MSG_INSIDE_ZONE Message_Warning s)"
proof -
  note strict = deep_inside_strictly_inside [OF assms(2)]
  from strict have inside: "technically_inside s (X_AXIS p) (Y_AXIS p)"
    by (simp add: technically_inside_def)
  from strict have hit: "line_intersects_keepout s (X_AXIS p) (Y_AXIS p) (X_AXIS target) (Y_AXIS target)"
    by (simp add: line_intersects_keepout_strictly_inside)
  have none: "calculate_clipped_point s p target = None"
    unfolding calculate_clipped_point_def
    by (rule calculate_clipped_point_with_inside [OF inside])
  from assms(1) inside hit none show ?thesis
    by (simp add: travel_limits_check_def keepout_apply_travel_limits_def Let_def)
qed

theorem trap_detection_witness:
  "is_keepout_active enforcing
   \<and> more_than_tolerance_inside enforcing (X_AXIS (at_xy 30 30 [5])) (Y_AXIS (at_xy 30 30 [5]))
   \<and> strictly_deep_inside enforcing (X_AXIS (at_xy 30 30 [5])) (Y_AXIS (at_xy 30 30 [5]))
   \<and> travel_limits_check (None :: (coord \<Rightarrow> unit \<Rightarrow> bool \<Rightarrow> unit \<Rightarrow> bool) option)
        (Some (at_xy 30 30 [5])) enforcing (at_xy 100 0 [7]) () True ()
        = (False, report_message MSG_INSIDE_ZONE Message_Warning enforcing)
   \<and> keepout_apply_travel_limits (None :: (coord \<Rightarrow> coord \<Rightarrow> unit \<Rightarrow> coord) option)
        enforcing (at_xy 100 0 [7]) (at_xy 30 30 [5]) ()
        = (at_xy 30 30 [5], report_message MSG_INSIDE_ZONE Message_Warning enforcing)"
proof -
  have exact: "more_than_tolerance_inside enforcing (X_AXIS (at_xy 30 30 [5])) (Y_AXIS (at_xy 30 30 [5]))"
    by (simp add: more_than_tolerance_inside_def at_xy_def enforcing_simps KEEPOUT_TOLERANCE_def)
  then have hyp: "more_than_tolerance_inside enforcing (X_AXIS (at_xy 30 30 [5])) (Y_AXIS (at_xy 30 30 [5]))
      \<or> strictly_deep_inside enforcing (X_AXIS (at_xy 30 30 [5])) (Y_AXIS (at_xy 30 30 [5]))
        \<and> bounds_representable enforcing"
    by simp
  have deep: "strictly_deep_inside enforcing (X_AXIS (at_xy 30 30 [5])) (Y_AXIS (at_xy 30 30 [5]))"
    by (simp add: enforcing_deep at_xy_def)
  from trap_detection [OF enforcing_active hyp,
      where prev_check = "None :: (coord \<Rightarrow> unit \<Rightarrow> bool \<Rightarrow> unit \<Rightarrow> bool) option"
        and prev_apply = "None :: (coord \<Rightarrow> coord \<Rightarrow> unit \<Rightarrow> coord) option"
        and target = "at_xy 100 0 [7]" and axes = "()" and is_cartesian = True
        and envelope = "()" and envelope' = "()"]
    enforcing_active exact deep
  show ?thesis by simp
qed

section \<open>Enforcement gating\<close>

text \<open>
  Claim C3. Whenever \<open>plugin_enabled\<close> is false or the runtime \<open>enabled\<close> flag is false,
  for every start, target and bounds, the two entry points do nothing of their own: the
  check path returns what the previously registered handler returns (\<open>True\<close> when there
  is none), the apply path leaves the target as the previously registered handler
  leaves it (unchanged when there is none), and the plugin's state, its message log
  included, is the one before the call.
\<close>

theorem enforcement_gating:
  assumes "\<not> plugin_enabled (config s) \<or> \<not> enabled (atci s)"
  shows "travel_limits_check prev_check pos s target axes is_cartesian envelope
           = ((case prev_check of Some f \<Rightarrow> f target axes is_cartesian envelope | None \<Rightarrow> True), s)
       \<and> keepout_apply_travel_limits prev_apply s target current_position envelope'
           = ((case prev_apply of Some f \<Rightarrow> f target current_position envelope' | None \<Rightarrow> target), s)"
  using assms
  by (auto simp: travel_limits_check_def keepout_apply_travel_limits_def is_keepout_active_def)

theorem enforcement_gating_witness:
  "\<not> plugin_enabled (config (boot None))
   \<and> strictly_deep_inside (boot None) 30 30
   \<and> travel_limits_check (Some (\<lambda>(t :: coord) (a :: unit) (c :: bool) (e :: unit). False))
        (Some (at_xy 30 30 [5])) (boot None) (at_xy 35 35 [7]) () True ()
        = (False, boot None)
   \<and> travel_limits_check (None :: (coord \<Rightarrow> unit \<Rightarrow> bool \<Rightarrow> unit \<Rightarrow> bool) option)
        (Some (at_xy 30 30 [5])) (boot None) (at_xy 35 35 [7]) () True ()
        = (True, boot None)
   \<and> keepout_apply_travel_limits (None :: (coord \<Rightarrow> coord \<Rightarrow> unit \<Rightarrow> coord) option)
        (boot None) (at_xy 35 35 [7]) (at_xy 30 30 [5]) ()
        = (at_xy 35 35 [7], boot None)"
proof -
  have off: "\<not> plugin_enabled (config (boot None))"
    by (simp add: boot_None_eq default_config_def)
  then have hyp: "\<not> plugin_enabled (config (boot None)) \<or> \<not> enabled (atci (boot None))"
    by simp
  have deep: "strictly_deep_inside (boot None) 30 30"
    by (simp add: strictly_deep_inside_def boot_None_eq KEEPOUT_TOLERANCE_def binary32_values)
  from enforcement_gating [OF hyp,
      where prev_check = "Some (\<lambda>(t :: coord) (a :: unit) (c :: bool) (e :: unit). False)"
        and prev_apply = "None :: (coord \<Rightarrow> coord \<Rightarrow> unit \<Rightarrow> coord) option"
        and pos = "Some (at_xy 30 30 [5])" and target = "at_xy 35 35 [7]"
        and current_position = "at_xy 30 30 [5]"
        and axes = "()" and is_cartesian = True and envelope = "()" and envelope' = "()"]
    enforcement_gating [OF hyp,
      where prev_check = "None :: (coord \<Rightarrow> unit \<Rightarrow> bool \<Rightarrow> unit \<Rightarrow> bool) option"
        and prev_apply = "None :: (coord \<Rightarrow> coord \<Rightarrow> unit \<Rightarrow> coord) option"
        and pos = "Some (at_xy 30 30 [5])" and target = "at_xy 35 35 [7]"
        and current_position = "at_xy 30 30 [5]"
        and axes = "()" and is_cartesian = True and envelope = "()" and envelope' = "()"]
    off deep
  show ?thesis by simp
qed

section \<open>A missing planner position\<close>

text \<open>
  Claim C9. When \<^verbatim>\<open>plan_get_position()\<close> returns a null pointer, the check path takes
  \<open>(0, 0)\<close> as the start. Its result, for every destination, is the result it gives when
  the planner reports a position whose X and Y components are zero, and it is decided
  by the three tests evaluated at \<open>(0, 0)\<close>: with enforcement active, a destination
  that is deep inside is rejected, and so is a destination whose segment from \<open>(0, 0)\<close>
  is reported by the intersection test; the message is "inside zone" when \<open>(0, 0)\<close> is
  deep inside or in the closed rectangle, and "target in zone" or "crossing" otherwise;
  every other destination gets the answer of the chained handler. Hence, with the
  origin strictly inside the rectangle every destination is rejected with "inside
  zone", and a destination that is not deep inside and whose segment from the origin
  stays beyond one boundary line gets the answer of the chained handler, wherever the
  machine is.
\<close>

theorem null_position_is_origin:
  assumes "X_AXIS origin = 0" and "Y_AXIS origin = 0"
  shows "travel_limits_check prev_check None s target axes is_cartesian envelope
           = travel_limits_check prev_check (Some origin) s target axes is_cartesian envelope
       \<and> travel_limits_check prev_check None s target axes is_cartesian envelope
           = (if \<not> is_keepout_active s
              then ((case prev_check of
                       Some f \<Rightarrow> f target axes is_cartesian envelope | None \<Rightarrow> True), s)
              else if strictly_deep_inside s (X_AXIS target) (Y_AXIS target)
              then (False,
                    report_message
                      (if strictly_deep_inside s 0 0 \<or> technically_inside s 0 0
                       then MSG_INSIDE_ZONE else MSG_TARGET_IN_ZONE) Message_Warning s)
              else if line_intersects_keepout s 0 0 (X_AXIS target) (Y_AXIS target)
              then (False,
                    report_message
                      (if strictly_deep_inside s 0 0 \<or> technically_inside s 0 0
                       then MSG_INSIDE_ZONE else MSG_CROSSING) Message_Warning s)
              else ((case prev_check of
                       Some f \<Rightarrow> f target axes is_cartesian envelope | None \<Rightarrow> True), s))
       \<and> (is_keepout_active s
            \<and> x_min (atci s) < 0 \<and> 0 < x_max (atci s) \<and> y_min (atci s) < 0 \<and> 0 < y_max (atci s)
          \<longrightarrow> travel_limits_check prev_check None s target axes is_cartesian envelope
                = (False, report_message MSG_INSIDE_ZONE Message_Warning s))
       \<and> (is_keepout_active s
            \<and> \<not> strictly_deep_inside s (X_AXIS target) (Y_AXIS target)
            \<and> beyond_one_line s 0 0 (X_AXIS target) (Y_AXIS target)
          \<longrightarrow> travel_limits_check prev_check None s target axes is_cartesian envelope
                = ((case prev_check of
                      Some f \<Rightarrow> f target axes is_cartesian envelope | None \<Rightarrow> True), s))"
proof (intro conjI impI)
  show "travel_limits_check prev_check None s target axes is_cartesian envelope
          = travel_limits_check prev_check (Some origin) s target axes is_cartesian envelope"
    using assms by (simp add: travel_limits_check_def Let_def)
  show "travel_limits_check prev_check None s target axes is_cartesian envelope
           = (if \<not> is_keepout_active s
              then ((case prev_check of
                       Some f \<Rightarrow> f target axes is_cartesian envelope | None \<Rightarrow> True), s)
              else if strictly_deep_inside s (X_AXIS target) (Y_AXIS target)
              then (False,
                    report_message
                      (if strictly_deep_inside s 0 0 \<or> technically_inside s 0 0
                       then MSG_INSIDE_ZONE else MSG_TARGET_IN_ZONE) Message_Warning s)
              else if line_intersects_keepout s 0 0 (X_AXIS target) (Y_AXIS target)
              then (False,
                    report_message
                      (if strictly_deep_inside s 0 0 \<or> technically_inside s 0 0
                       then MSG_INSIDE_ZONE else MSG_CROSSING) Message_Warning s)
              else ((case prev_check of
                       Some f \<Rightarrow> f target axes is_cartesian envelope | None \<Rightarrow> True), s))"
    by (simp add: travel_limits_check_def Let_def)
next
  assume h: "is_keepout_active s
       \<and> x_min (atci s) < 0 \<and> 0 < x_max (atci s) \<and> y_min (atci s) < 0 \<and> 0 < y_max (atci s)"
  then have inside: "technically_inside s 0 0"
    by (simp add: technically_inside_def)
  from h have hit: "line_intersects_keepout s 0 0 (X_AXIS target) (Y_AXIS target)"
    by (simp add: line_intersects_keepout_strictly_inside)
  from h inside hit
  show "travel_limits_check prev_check None s target axes is_cartesian envelope
          = (False, report_message MSG_INSIDE_ZONE Message_Warning s)"
    by (simp add: travel_limits_check_def Let_def)
next
  assume h: "is_keepout_active s
       \<and> \<not> strictly_deep_inside s (X_AXIS target) (Y_AXIS target)
       \<and> beyond_one_line s 0 0 (X_AXIS target) (Y_AXIS target)"
  then have miss: "\<not> line_intersects_keepout s 0 0 (X_AXIS target) (Y_AXIS target)"
    by (simp add: line_intersects_keepout_beyond)
  from h miss
  show "travel_limits_check prev_check None s target axes is_cartesian envelope
          = ((case prev_check of
                Some f \<Rightarrow> f target axes is_cartesian envelope | None \<Rightarrow> True), s)"
    by (simp add: travel_limits_check_def Let_def)
qed

text \<open>
  The instances: on the zone \<open>[-20, 20] \<times> [-20, 20]\<close>, which holds the origin, a missing
  position has the move to \<open>(100, 0)\<close> rejected with "inside zone"; on the zone
  \<open>[10, 50] \<times> [10, 50]\<close> it has the same move accepted, as from a reported \<open>(0, 0)\<close>, while
  from the reported position \<open>(30, 30)\<close> the move is rejected.
\<close>

theorem null_position_is_origin_witness:
  "X_AXIS (at_xy 0 0 [3]) = 0 \<and> Y_AXIS (at_xy 0 0 [3]) = 0
   \<and> travel_limits_check (None :: (coord \<Rightarrow> unit \<Rightarrow> bool \<Rightarrow> unit \<Rightarrow> bool) option)
        None enforcing (at_xy 100 0 [7]) () True ()
     = travel_limits_check None (Some (at_xy 0 0 [3])) enforcing (at_xy 100 0 [7]) () True ()
   \<and> is_keepout_active around_origin
   \<and> x_min (atci around_origin) < 0 \<and> 0 < x_max (atci around_origin)
   \<and> y_min (atci around_origin) < 0 \<and> 0 < y_max (atci around_origin)
   \<and> travel_limits_check (None :: (coord \<Rightarrow> unit \<Rightarrow> bool \<Rightarrow> unit \<Rightarrow> bool) option)
        None around_origin (at_xy 100 0 [7]) () True ()
     = (False, report_message MSG_INSIDE_ZONE Message_Warning around_origin)
   \<and> is_keepout_active enforcing
   \<and> \<not> strictly_deep_inside enforcing (X_AXIS (at_xy 100 0 [7])) (Y_AXIS (at_xy 100 0 [7]))
   \<and> beyond_one_line enforcing 0 0 (X_AXIS (at_xy 100 0 [7])) (Y_AXIS (at_xy 100 0 [7]))
   \<and> travel_limits_check (None :: (coord \<Rightarrow> unit \<Rightarrow> bool \<Rightarrow> unit \<Rightarrow> bool) option)
        None enforcing (at_xy 100 0 [7]) () True ()
     = (True, enforcing)
   \<and> fst (travel_limits_check (None :: (coord \<Rightarrow> unit \<Rightarrow> bool \<Rightarrow> unit \<Rightarrow> bool) option)
        (Some (at_xy 30 30 [3])) enforcing (at_xy 100 0 [7]) () True ()) = False"
proof -
  have x: "X_AXIS (at_xy 0 0 [3]) = 0" and y: "Y_AXIS (at_xy 0 0 [3]) = 0"
    by (simp_all add: at_xy_def)
  have around: "x_min (atci around_origin) < 0 \<and> 0 < x_max (atci around_origin)
      \<and> y_min (atci around_origin) < 0 \<and> 0 < y_max (atci around_origin)"
    by (simp add: around_origin_simps)
  have shallow: "\<not> strictly_deep_inside enforcing (X_AXIS (at_xy 100 0 [7])) (Y_AXIS (at_xy 100 0 [7]))"
    by (simp add: enforcing_deep at_xy_def)
  have beyond: "beyond_one_line enforcing 0 0 (X_AXIS (at_xy 100 0 [7])) (Y_AXIS (at_xy 100 0 [7]))"
    by (simp add: beyond_one_line_def enforcing_simps at_xy_def)
  note a = null_position_is_origin [OF x y,
      where prev_check = "None :: (coord \<Rightarrow> unit \<Rightarrow> bool \<Rightarrow> unit \<Rightarrow> bool) option"
        and s = around_origin and target = "at_xy 100 0 [7]" and axes = "()"
        and is_cartesian = True and envelope = "()"]
  note e = null_position_is_origin [OF x y,
      where prev_check = "None :: (coord \<Rightarrow> unit \<Rightarrow> bool \<Rightarrow> unit \<Rightarrow> bool) option"
        and s = enforcing and target = "at_xy 100 0 [7]" and axes = "()"
        and is_cartesian = True and envelope = "()"]
  from a around_origin_active around
  have rejected_inside:
    "travel_limits_check (None :: (coord \<Rightarrow> unit \<Rightarrow> bool \<Rightarrow> unit \<Rightarrow> bool) option)
        None around_origin (at_xy 100 0 [7]) () True ()
     = (False, report_message MSG_INSIDE_ZONE Message_Warning around_origin)"
    by blast
  from e [THEN conjunct2, THEN conjunct2, THEN conjunct2, rule_format,
      OF conjI [OF enforcing_active conjI [OF shallow beyond]]]
  have accepted:
    "travel_limits_check (None :: (coord \<Rightarrow> unit \<Rightarrow> bool \<Rightarrow> unit \<Rightarrow> bool) option)
        None enforcing (at_xy 100 0 [7]) () True ()
     = (True, enforcing)"
    by simp
  from e have same:
    "travel_limits_check (None :: (coord \<Rightarrow> unit \<Rightarrow> bool \<Rightarrow> unit \<Rightarrow> bool) option)
        None enforcing (at_xy 100 0 [7]) () True ()
     = travel_limits_check None (Some (at_xy 0 0 [3])) enforcing (at_xy 100 0 [7]) () True ()"
    by blast
  have deep: "strictly_deep_inside enforcing 30 30"
    by (simp add: enforcing_deep)
  have hit: "line_intersects_keepout enforcing 30 30 100 0"
    by (rule line_intersects_keepout_strictly_inside) (simp_all add: enforcing_simps)
  have rejected: "fst (travel_limits_check (None :: (coord \<Rightarrow> unit \<Rightarrow> bool \<Rightarrow> unit \<Rightarrow> bool) option)
        (Some (at_xy 30 30 [3])) enforcing (at_xy 100 0 [7]) () True ()) = False"
    using deep hit enforcing_active
    by (simp add: travel_limits_check_def Let_def at_xy_def)
  from x y same around_origin_active around rejected_inside enforcing_active shallow beyond
    accepted rejected
  show ?thesis by blast
qed

section \<open>Clipping to the boundary\<close>




section \<open>What the apply path writes into the target\<close>

text \<open>
  Claim C10. With enforcement active, whenever the apply path blocks a move (the start is
  deep inside; or the start is not, the destination is deep inside or the segment
  intersects, and clipping returns none) the target becomes the current position in
  every component, those outside the X/Y plane included; whenever it clips instead, the
  target becomes the clipped point, whose components outside the X/Y plane are those of
  the original destination.
\<close>

theorem apply_path_frame:
  assumes "is_keepout_active s"
  shows "(strictly_deep_inside s (X_AXIS cur) (Y_AXIS cur) \<longrightarrow>
            fst (keepout_apply_travel_limits prev_apply s target cur envelope) = cur)
       \<and> (\<not> strictly_deep_inside s (X_AXIS cur) (Y_AXIS cur)
            \<and> (strictly_deep_inside s (X_AXIS target) (Y_AXIS target)
               \<or> line_intersects_keepout s (X_AXIS cur) (Y_AXIS cur) (X_AXIS target) (Y_AXIS target))
          \<longrightarrow> (case calculate_clipped_point s cur target of
                 None \<Rightarrow> fst (keepout_apply_travel_limits prev_apply s target cur envelope) = cur
               | Some c \<Rightarrow>
                   fst (keepout_apply_travel_limits prev_apply s target cur envelope) = c
                   \<and> other_axes (fst (keepout_apply_travel_limits prev_apply s target cur envelope))
                       = other_axes target))"
proof (intro conjI impI)
  assume "strictly_deep_inside s (X_AXIS cur) (Y_AXIS cur)"
  with assms show "fst (keepout_apply_travel_limits prev_apply s target cur envelope) = cur"
    by (simp add: keepout_apply_travel_limits_def Let_def)
next
  assume h: "\<not> strictly_deep_inside s (X_AXIS cur) (Y_AXIS cur)
            \<and> (strictly_deep_inside s (X_AXIS target) (Y_AXIS target)
               \<or> line_intersects_keepout s (X_AXIS cur) (Y_AXIS cur) (X_AXIS target) (Y_AXIS target))"
  show "case calculate_clipped_point s cur target of
          None \<Rightarrow> fst (keepout_apply_travel_limits prev_apply s target cur envelope) = cur
        | Some c \<Rightarrow>
            fst (keepout_apply_travel_limits prev_apply s target cur envelope) = c
            \<and> other_axes (fst (keepout_apply_travel_limits prev_apply s target cur envelope))
                = other_axes target"
  proof (cases "calculate_clipped_point s cur target")
    case None
    with assms h show ?thesis
      by (auto simp: keepout_apply_travel_limits_def Let_def)
  next
    case (Some c)
    then have "other_axes c = other_axes target"
      by (auto simp: calculate_clipped_point_def calculate_clipped_point_with_Some)
    with assms h Some show ?thesis
      by (auto simp: keepout_apply_travel_limits_def Let_def)
  qed
qed

theorem apply_path_frame_witness:
  "is_keepout_active enforcing
   \<and> strictly_deep_inside enforcing 30 30
   \<and> fst (keepout_apply_travel_limits (None :: (coord \<Rightarrow> coord \<Rightarrow> unit \<Rightarrow> coord) option)
        enforcing (at_xy 100 0 [7]) (at_xy 30 30 [5]) ()) = at_xy 30 30 [5]
   \<and> \<not> strictly_deep_inside enforcing 10 30
   \<and> line_intersects_keepout enforcing 10 30 30 30
   \<and> calculate_clipped_point enforcing (at_xy 10 30 [5]) (at_xy 30 30 [7]) = None
   \<and> fst (keepout_apply_travel_limits (None :: (coord \<Rightarrow> coord \<Rightarrow> unit \<Rightarrow> coord) option)
        enforcing (at_xy 30 30 [7]) (at_xy 10 30 [5]) ()) = at_xy 10 30 [5]
   \<and> \<not> strictly_deep_inside enforcing 0 30
   \<and> line_intersects_keepout enforcing 0 30 30 30
   \<and> calculate_clipped_point enforcing (at_xy 0 30 [5]) (at_xy 30 30 [7]) = Some (at_xy 10 30 [7])
   \<and> fst (keepout_apply_travel_limits (None :: (coord \<Rightarrow> coord \<Rightarrow> unit \<Rightarrow> coord) option)
        enforcing (at_xy 30 30 [7]) (at_xy 0 30 [5]) ()) = at_xy 10 30 [7]"
proof -
  note ev = enforcing_deep enforcing_simps line_intersects_keepout_def clip_interval_def
    calculate_clipped_point_def calculate_clipped_point_with_def mul_add_def at_xy_def
    Let_def binary32_eval
  have d1: "strictly_deep_inside enforcing 30 30" by (simp add: ev)
  have d2: "\<not> strictly_deep_inside enforcing 10 30" by (simp add: ev)
  have i2: "line_intersects_keepout enforcing 10 30 30 30" by (simp add: ev)
  have c2: "calculate_clipped_point enforcing (at_xy 10 30 [5]) (at_xy 30 30 [7]) = None"
    by (simp add: ev)
  have d3: "\<not> strictly_deep_inside enforcing 0 30" by (simp add: ev)
  have i3: "line_intersects_keepout enforcing 0 30 30 30" by (simp add: ev)
  have c3: "calculate_clipped_point enforcing (at_xy 0 30 [5]) (at_xy 30 30 [7])
              = Some (at_xy 10 30 [7])"
    by (simp add: ev)
  note th = apply_path_frame [OF enforcing_active,
      where prev_apply = "None :: (coord \<Rightarrow> coord \<Rightarrow> unit \<Rightarrow> coord) option" and envelope = "()"]
  from th [of "at_xy 30 30 [5]" "at_xy 100 0 [7]"] d1
  have r1: "fst (keepout_apply_travel_limits (None :: (coord \<Rightarrow> coord \<Rightarrow> unit \<Rightarrow> coord) option)
        enforcing (at_xy 100 0 [7]) (at_xy 30 30 [5]) ()) = at_xy 30 30 [5]"
    by (simp add: at_xy_def)
  from th [of "at_xy 10 30 [5]" "at_xy 30 30 [7]"] d2 i2 c2
  have r2: "fst (keepout_apply_travel_limits (None :: (coord \<Rightarrow> coord \<Rightarrow> unit \<Rightarrow> coord) option)
        enforcing (at_xy 30 30 [7]) (at_xy 10 30 [5]) ()) = at_xy 10 30 [5]"
    by (simp add: at_xy_def)
  from th [of "at_xy 0 30 [5]" "at_xy 30 30 [7]"] d3 i3 c3
  have r3: "fst (keepout_apply_travel_limits (None :: (coord \<Rightarrow> coord \<Rightarrow> unit \<Rightarrow> coord) option)
        enforcing (at_xy 30 30 [7]) (at_xy 0 30 [5]) ()) = at_xy 10 30 [7]"
    by (simp add: at_xy_def)
  from enforcing_active d1 r1 d2 i2 c2 r2 d3 i3 c3 r3 show ?thesis by simp
qed

section \<open>Segment against rectangle\<close>




text \<open>
  Two more runs on the same zone. A move along the left edge, from \<open>(10, 30)\<close> to
  \<open>(10, 40)\<close>, overlaps the closed rectangle on its whole length and is reported. The
  move from \<open>(-10171187 / 1048576, 20)\<close> to \<open>(7785677 / 262144, 0)\<close>, the \<^verbatim>\<open>float\<close> values
  of \<open>-9.7\<close> and \<open>29.7\<close>, is in the closed rectangle at the two parameters
  \<open>20656947 / 41313895\<close> and \<open>1 / 2\<close>, and is not reported: both rounded quotients are
  \<open>1 / 2\<close>.
\<close>

lemma move_along_edge_intersects: "line_intersects_keepout enforcing 10 30 10 40"
  by (simp add: line_intersects_keepout_def clip_interval_def enforcing_simps Let_def
      binary32_eval)

lemma corner_cut_not_reported:
  "inside_at enforcing (- (10171187 / 1048576)) 20 (7785677 / 262144) 0 (20656947 / 41313895)
   \<and> inside_at enforcing (- (10171187 / 1048576)) 20 (7785677 / 262144) 0 (1 / 2)
   \<and> clip_interval enforcing (- (10171187 / 1048576)) 20 (7785677 / 262144) 0
       = Some (1 / 2, 1 / 2)
   \<and> \<not> line_intersects_keepout enforcing (- (10171187 / 1048576)) 20 (7785677 / 262144) 0"
proof -
  have run: "clip_interval enforcing (- (10171187 / 1048576)) 20 (7785677 / 262144) 0
       = Some (1 / 2, 1 / 2)"
    by (simp add: clip_interval_def enforcing_simps Let_def binary32_eval)
  have "inside_at enforcing (- (10171187 / 1048576)) 20 (7785677 / 262144) 0
          (20656947 / 41313895)"
    and "inside_at enforcing (- (10171187 / 1048576)) 20 (7785677 / 262144) 0 (1 / 2)"
    by (simp_all add: inside_at_def technically_inside_def enforcing_simps)
  with run show ?thesis
    by (simp add: line_intersects_keepout_def)
qed

section \<open>Normalisation of the bounds\<close>

lemma keepout_set_in_sync: "bounds_in_sync (keepout_set s)"
  by (simp add: bounds_in_sync_def keepout_set_def)

lemma bounds_in_sync_ordered: "bounds_in_sync s \<Longrightarrow> bounds_ordered s"
  by (auto simp: bounds_in_sync_def bounds_ordered_def min_def max_def)

lemma set_keepout_state_bounds:
  "x_min (atci (set_keepout_state b src s)) = x_min (atci s)"
  "x_max (atci (set_keepout_state b src s)) = x_max (atci s)"
  "y_min (atci (set_keepout_state b src s)) = y_min (atci s)"
  "y_max (atci (set_keepout_state b src s)) = y_max (atci s)"
  "config (set_keepout_state b src s) = config s"
  by (simp_all add: set_keepout_state_def)

lemma atci_load_in_sync: "bounds_in_sync (atci_load s)"
proof -
  have "bounds_in_sync (keepout_set s1)" for s1 by (rule keepout_set_in_sync)
  then show ?thesis
    by (simp add: atci_load_def Let_def task_add_delayed_def bounds_in_sync_def
        set_keepout_state_bounds)
qed

text \<open>\<open>atci_restore\<close> writes none of the four runtime bounds.\<close>

lemma atci_restore_bounds:
  "x_min (atci (atci_restore s)) = x_min (atci s)"
  "x_max (atci (atci_restore s)) = x_max (atci s)"
  "y_min (atci (atci_restore s)) = y_min (atci s)"
  "y_max (atci (atci_restore s)) = y_max (atci s)"
  by (simp_all add: atci_restore_def)

lemma crossed_config_simps:
  "cfg_x_min crossed_config = 200" "cfg_x_max crossed_config = 100"
  "cfg_y_min crossed_config = 100" "cfg_y_max crossed_config = 200"
  by (simp_all add: crossed_config_def)

lemma crossed_boot_eq:
  "boot (Some crossed_config) =
     \<lparr>config = crossed_config,
      atci = \<lparr>x_min = 100, y_min = 100, x_max = 200, y_max = 200, enabled = True,
               source = SOURCE_STARTUP, last_pin_state = False\<rparr>,
      tc_macro_running = False, drawbar_state = False, tool_sensor_state = False,
      pressure_sensor_state = False, inside_keepout_zone = False,
      nvs = Some crossed_config, messages = [], tasks = [1000], stream = []\<rparr>"
  by (simp add: boot_def atci_load_def power_on_def keepout_set_def
      set_keepout_state_def task_add_delayed_def crossed_config_def default_config_def Let_def)

lemma atci_save_in_sync: "bounds_in_sync (atci_save s)"
  by (simp add: atci_save_def Let_def bounds_in_sync_def keepout_set_def)

text \<open>
  What holds of the normalisation: for every stored record, with its bounds in any
  order, the runtime bounds after \<open>atci_load\<close> are the normalised bounds of the
  configuration then in force, so \<open>x_min \<le> x_max\<close> and \<open>y_min \<le> y_max\<close>; every load runs
  the pass, also when the read fails and \<open>atci_load\<close> falls back to \<open>atci_restore\<close>,
  which it follows with \<open>keepout_set\<close>; and \<open>atci_restore\<close>, which writes none of the
  runtime bounds, keeps them ordered when they were.
\<close>

lemma load_normalises_bounds:
  "bounds_in_sync (atci_load s) \<and> bounds_ordered (atci_load s)
   \<and> (\<forall>c. nvs s = Some c \<longrightarrow> config (atci_load s) = c)
   \<and> (nvs s = None \<longrightarrow>
        atci_load s = task_add_delayed 1000
          ((set_keepout_state True SOURCE_STARTUP (keepout_set (atci_restore s)))
             \<lparr>tc_macro_running := False\<rparr>)
        \<and> config (atci_load s) = default_config)
   \<and> (bounds_ordered s \<longrightarrow> bounds_ordered (atci_restore s))"
proof (intro conjI allI impI)
  show "bounds_in_sync (atci_load s)" by (rule atci_load_in_sync)
  then show "bounds_ordered (atci_load s)" by (rule bounds_in_sync_ordered)
next
  fix c assume "nvs s = Some c"
  then show "config (atci_load s) = c"
    by (simp add: atci_load_def Let_def task_add_delayed_def set_keepout_state_bounds
        keepout_set_def)
next
  assume n: "nvs s = None"
  then show "atci_load s = task_add_delayed 1000
          ((set_keepout_state True SOURCE_STARTUP (keepout_set (atci_restore s)))
             \<lparr>tc_macro_running := False\<rparr>)"
    by (simp add: atci_load_def Let_def)
  from n show "config (atci_load s) = default_config"
    by (simp add: atci_load_def Let_def task_add_delayed_def set_keepout_state_bounds
        keepout_set_def atci_restore_def)
next
  assume "bounds_ordered s"
  then show "bounds_ordered (atci_restore s)"
    by (simp add: bounds_ordered_def atci_restore_bounds)
qed

text \<open>
  Claim C6 against the code. \<open>atci_restore\<close> rewrites the stored record and resets three
  runtime fields and, unlike \<open>atci_load\<close> and \<open>atci_save\<close>, has no call of \<open>keepout_set\<close>:
  a restore run through the settings layer's restore callback triggers no
  normalisation pass. After start-up on a stored zone \<open>[100, 200] \<times> [100, 200]\<close> the
  runtime bounds are the normalised stored ones; after \<open>atci_restore\<close> the stored bounds
  are \<open>[10, 50] \<times> [10, 50]\<close> and the runtime bounds still \<open>[100, 200] \<times> [100, 200]\<close>, a
  state \<open>keepout_set\<close> would change. The stale bounds are the ones the next poll
  compares the position with: at \<open>(30, 30)\<close>, inside the configured zone, the poll
  leaves \<open>inside_keepout_zone\<close> false and the realtime report shows no \<open>Z\<close>, where after
  a normalisation pass it would.
\<close>

theorem restore_runs_no_normalisation:
  "bounds_in_sync (boot (Some crossed_config))
   \<and> \<not> bounds_in_sync (atci_restore (boot (Some crossed_config)))
   \<and> atci_restore (boot (Some crossed_config))
       \<noteq> keepout_set (atci_restore (boot (Some crossed_config)))
   \<and> cfg_x_min (config (atci_restore (boot (Some crossed_config)))) = 10
   \<and> cfg_x_max (config (atci_restore (boot (Some crossed_config)))) = 50
   \<and> x_min (atci (atci_restore (boot (Some crossed_config)))) = 100
   \<and> x_max (atci (atci_restore (boot (Some crossed_config)))) = 200
   \<and> bounds_in_sync (atci_load (boot (Some crossed_config)))
   \<and> bounds_in_sync (atci_save (boot (Some crossed_config)))
   \<and> \<not> inside_keepout_zone
         (poll_rack_sensor rack_absent (Some (at_xy 30 30 []))
           (atci_restore (boot (Some crossed_config))))
   \<and> realtime_flags
         (poll_rack_sensor rack_absent (Some (at_xy 30 30 []))
           (atci_restore (boot (Some crossed_config)))) = ''SE''
   \<and> inside_keepout_zone
         (poll_rack_sensor rack_absent (Some (at_xy 30 30 []))
           (keepout_set (atci_restore (boot (Some crossed_config)))))
   \<and> realtime_flags
         (poll_rack_sensor rack_absent (Some (at_xy 30 30 []))
           (keepout_set (atci_restore (boot (Some crossed_config))))) = ''SEZ''"
proof -
  have s: "bounds_in_sync (boot (Some crossed_config))"
    by (simp add: bounds_in_sync_def crossed_boot_eq crossed_config_simps)
  have f: "cfg_x_min (config (atci_restore (boot (Some crossed_config)))) = 10"
    "cfg_x_max (config (atci_restore (boot (Some crossed_config)))) = 50"
    "x_min (atci (atci_restore (boot (Some crossed_config)))) = 100"
    "x_max (atci (atci_restore (boot (Some crossed_config)))) = 200"
    by (simp_all add: atci_restore_def crossed_boot_eq default_config_def)
  from f have n: "\<not> bounds_in_sync (atci_restore (boot (Some crossed_config)))"
    by (simp add: bounds_in_sync_def)
  have d: "atci_restore (boot (Some crossed_config))
       \<noteq> keepout_set (atci_restore (boot (Some crossed_config)))"
  proof
    assume "atci_restore (boot (Some crossed_config))
       = keepout_set (atci_restore (boot (Some crossed_config)))"
    then have "bounds_in_sync (atci_restore (boot (Some crossed_config)))"
      using keepout_set_in_sync [of "atci_restore (boot (Some crossed_config))"] by simp
    with n show False by simp
  qed
  have restored: "atci_restore (boot (Some crossed_config)) =
     \<lparr>config = default_config,
      atci = \<lparr>x_min = 100, y_min = 100, x_max = 200, y_max = 200, enabled = True,
               source = SOURCE_STARTUP, last_pin_state = False\<rparr>,
      tc_macro_running = False, drawbar_state = False, tool_sensor_state = False,
      pressure_sensor_state = False, inside_keepout_zone = False,
      nvs = Some default_config, messages = [], tasks = [1000], stream = []\<rparr>"
    by (simp add: atci_restore_def crossed_boot_eq)
  have stale: "poll_rack_sensor rack_absent (Some (at_xy 30 30 []))
           (atci_restore (boot (Some crossed_config))) =
     \<lparr>config = default_config,
      atci = \<lparr>x_min = 100, y_min = 100, x_max = 200, y_max = 200, enabled = True,
               source = SOURCE_STARTUP, last_pin_state = False\<rparr>,
      tc_macro_running = False, drawbar_state = False, tool_sensor_state = False,
      pressure_sensor_state = False, inside_keepout_zone = False,
      nvs = Some default_config, messages = [], tasks = [1000, 100], stream = []\<rparr>"
    unfolding restored
    by (simp add: poll_rack_sensor_def rack_absent_def at_xy_def technically_inside_def
        task_add_delayed_def default_config_def Let_def)
  have fresh: "poll_rack_sensor rack_absent (Some (at_xy 30 30 []))
           (keepout_set (atci_restore (boot (Some crossed_config)))) =
     \<lparr>config = default_config,
      atci = \<lparr>x_min = 10, y_min = 10, x_max = 50, y_max = 50, enabled = True,
               source = SOURCE_STARTUP, last_pin_state = False\<rparr>,
      tc_macro_running = False, drawbar_state = False, tool_sensor_state = False,
      pressure_sensor_state = False, inside_keepout_zone = True,
      nvs = Some default_config, messages = [], tasks = [1000, 100], stream = []\<rparr>"
    unfolding restored
    by (simp add: poll_rack_sensor_def keepout_set_def rack_absent_def at_xy_def
        technically_inside_def task_add_delayed_def default_config_def Let_def)
  have z1: "\<not> inside_keepout_zone
         (poll_rack_sensor rack_absent (Some (at_xy 30 30 []))
           (atci_restore (boot (Some crossed_config))))"
    and z2: "realtime_flags
         (poll_rack_sensor rack_absent (Some (at_xy 30 30 []))
           (atci_restore (boot (Some crossed_config)))) = ''SE''"
    unfolding stale by (simp_all add: realtime_flags_def source_flag_def default_config_def Let_def)
  have z3: "inside_keepout_zone
         (poll_rack_sensor rack_absent (Some (at_xy 30 30 []))
           (keepout_set (atci_restore (boot (Some crossed_config)))))"
    and z4: "realtime_flags
         (poll_rack_sensor rack_absent (Some (at_xy 30 30 []))
           (keepout_set (atci_restore (boot (Some crossed_config))))) = ''SEZ''"
    unfolding fresh by (simp_all add: realtime_flags_def source_flag_def default_config_def Let_def)
  from s n d f atci_load_in_sync [of "boot (Some crossed_config)"]
    atci_save_in_sync [of "boot (Some crossed_config)"] z1 z2 z3 z4
  show ?thesis by blast
qed

section \<open>The M960 command\<close>

text \<open>
  Claim C7. For a block whose user M-code is 960: \<open>mcode_validate\<close> returns
  \<^verbatim>\<open>Status_GcodeValueOutOfRange\<close> exactly when the P word is present with a value other
  than 0 and 1, and \<^verbatim>\<open>Status_OK\<close> otherwise; validation writes none of the plugin's
  state, so a rejected command leaves it as it was. \<open>mcode_execute\<close> in check mode
  leaves the state as it was; otherwise, with the P word present, it is the Command
  transition \<open>set_keepout_state (P = 1) SOURCE_COMMAND\<close>, after which \<open>enabled\<close> is
  \<open>P = 1\<close> and the source is \<open>SOURCE_COMMAND\<close>; with the P word absent it logs the usage
  message at level Info and changes nothing else. The host hands \<open>mcode_execute\<close> the
  block with the words the validation consumed set again.
\<close>

theorem m960_command:
  assumes "user_mcode gc_block = 960"
  shows "((fst (mcode_validate prev gc_block s) = Status_GcodeValueOutOfRange)
            = (words_p gc_block \<and> values_p gc_block \<noteq> 0 \<and> values_p gc_block \<noteq> 1))
       \<and> ((fst (mcode_validate prev gc_block s) = Status_OK)
            = (\<not> (words_p gc_block \<and> values_p gc_block \<noteq> 0 \<and> values_p gc_block \<noteq> 1)))
       \<and> snd (snd (mcode_validate prev gc_block s)) = s
       \<and> mcode_execute check_mode check_mode gc_block s = s
       \<and> (state \<noteq> check_mode \<and> words_p gc_block \<longrightarrow>
            mcode_execute check_mode state gc_block s
              = set_keepout_state (values_p gc_block = 1) SOURCE_COMMAND s
            \<and> enabled (atci (mcode_execute check_mode state gc_block s)) = (values_p gc_block = 1)
            \<and> source (atci (mcode_execute check_mode state gc_block s)) = SOURCE_COMMAND
            \<and> messages (mcode_execute check_mode state gc_block s) = messages s)
       \<and> (state \<noteq> check_mode \<and> \<not> words_p gc_block \<longrightarrow>
            mcode_execute check_mode state gc_block s = report_message MSG_USAGE Message_Info s
            \<and> atci (mcode_execute check_mode state gc_block s) = atci s
            \<and> messages (mcode_execute check_mode state gc_block s)
                = messages s @ [(MSG_USAGE, Message_Info)])"
proof (intro conjI impI)
  show "(fst (mcode_validate prev gc_block s) = Status_GcodeValueOutOfRange)
            = (words_p gc_block \<and> values_p gc_block \<noteq> 0 \<and> values_p gc_block \<noteq> 1)"
    using assms by (cases prev) (simp_all add: mcode_validate_def)
  show "(fst (mcode_validate prev gc_block s) = Status_OK)
            = (\<not> (words_p gc_block \<and> values_p gc_block \<noteq> 0 \<and> values_p gc_block \<noteq> 1))"
    using assms by (cases prev) (simp_all add: mcode_validate_def)
  show "snd (snd (mcode_validate prev gc_block s)) = s"
    by (cases prev) (simp_all add: mcode_validate_def Let_def split: prod.splits)
  show "mcode_execute check_mode check_mode gc_block s = s"
    by (simp add: mcode_execute_def)
next
  assume h: "state \<noteq> check_mode \<and> words_p gc_block"
  with assms show e: "mcode_execute check_mode state gc_block s
              = set_keepout_state (values_p gc_block = 1) SOURCE_COMMAND s"
    by (simp add: mcode_execute_def)
  show "enabled (atci (mcode_execute check_mode state gc_block s)) = (values_p gc_block = 1)"
    unfolding e by (auto simp: set_keepout_state_def)
  show "source (atci (mcode_execute check_mode state gc_block s)) = SOURCE_COMMAND"
    unfolding e by (auto simp: set_keepout_state_def)
  show "messages (mcode_execute check_mode state gc_block s) = messages s"
    unfolding e by (simp add: set_keepout_state_def)
next
  assume h: "state \<noteq> check_mode \<and> \<not> words_p gc_block"
  with assms show e: "mcode_execute check_mode state gc_block s
              = report_message MSG_USAGE Message_Info s"
    by (simp add: mcode_execute_def)
  show "atci (mcode_execute check_mode state gc_block s) = atci s"
    unfolding e by (simp add: report_message_def)
  show "messages (mcode_execute check_mode state gc_block s)
          = messages s @ [(MSG_USAGE, Message_Info)]"
    unfolding e by (simp add: report_message_def)
qed

text \<open>
  The instances: \<^verbatim>\<open>M960 P2\<close> is rejected; \<^verbatim>\<open>M960 P0\<close>, run in a state other than check
  mode, disables the keepout with source Command; \<^verbatim>\<open>M960\<close> without P logs the usage
  message.
\<close>

theorem m960_command_witness:
  "user_mcode \<lparr>user_mcode = 960, words_p = True, values_p = 2\<rparr> = 960
   \<and> fst (mcode_validate None \<lparr>user_mcode = 960, words_p = True, values_p = 2\<rparr> enforcing)
       = Status_GcodeValueOutOfRange
   \<and> snd (snd (mcode_validate None \<lparr>user_mcode = 960, words_p = True, values_p = 2\<rparr> enforcing))
       = enforcing
   \<and> fst (mcode_validate None \<lparr>user_mcode = 960, words_p = True, values_p = 0\<rparr> enforcing)
       = Status_OK
   \<and> enabled (atci (mcode_execute 2 0 \<lparr>user_mcode = 960, words_p = True, values_p = 0\<rparr> enforcing))
       = False
   \<and> source (atci (mcode_execute 2 0 \<lparr>user_mcode = 960, words_p = True, values_p = 0\<rparr> enforcing))
       = SOURCE_COMMAND
   \<and> mcode_execute 2 2 \<lparr>user_mcode = 960, words_p = True, values_p = 0\<rparr> enforcing = enforcing
   \<and> messages (mcode_execute 2 0 \<lparr>user_mcode = 960, words_p = False, values_p = 0\<rparr> enforcing)
       = [(MSG_USAGE, Message_Info)]"
proof -
  note a = m960_command [of "\<lparr>user_mcode = 960, words_p = True, values_p = 2\<rparr>" None enforcing 2 0]
  note b = m960_command [of "\<lparr>user_mcode = 960, words_p = True, values_p = 0\<rparr>" None enforcing 2 0]
  note c = m960_command [of "\<lparr>user_mcode = 960, words_p = False, values_p = 0\<rparr>" None enforcing 2 0]
  from a have r1: "fst (mcode_validate None \<lparr>user_mcode = 960, words_p = True, values_p = 2\<rparr> enforcing)
       = Status_GcodeValueOutOfRange"
    and r2: "snd (snd (mcode_validate None \<lparr>user_mcode = 960, words_p = True, values_p = 2\<rparr> enforcing))
       = enforcing"
    by simp_all
  from b have r3: "fst (mcode_validate None \<lparr>user_mcode = 960, words_p = True, values_p = 0\<rparr> enforcing)
       = Status_OK"
    and r4: "enabled (atci (mcode_execute 2 0 \<lparr>user_mcode = 960, words_p = True, values_p = 0\<rparr> enforcing))
       = False"
    and r5: "source (atci (mcode_execute 2 0 \<lparr>user_mcode = 960, words_p = True, values_p = 0\<rparr> enforcing))
       = SOURCE_COMMAND"
    and r6: "mcode_execute 2 2 \<lparr>user_mcode = 960, words_p = True, values_p = 0\<rparr> enforcing = enforcing"
    by (simp_all add: set_keepout_state_def enforcing_simps)
  from c have r7: "messages (mcode_execute 2 0 \<lparr>user_mcode = 960, words_p = False, values_p = 0\<rparr> enforcing)
       = [(MSG_USAGE, Message_Info)]"
    by (simp add: report_message_def enforcing_simps)
  from r1 r2 r3 r4 r5 r6 r7 show ?thesis by simp
qed

section \<open>The realtime report\<close>

text \<open>
  Claim C8. The flag string of the realtime report is, with no separators: one character
  for the source (\<open>S\<close> for Startup, \<open>R\<close> for Rack, \<open>M\<close> for Command, \<open>T\<close> for Macro), then
  \<open>E\<close> iff the runtime \<open>enabled\<close> flag is set, then \<open>I\<close> iff rack monitoring is on and the
  last pin state is true, then \<open>B\<close>, \<open>L\<close>, \<open>P\<close> for the drawbar, tool-sensor and pressure
  flags when set, then \<open>Z\<close> iff the position was inside the zone at the last poll; the
  report writes \<open>|ATCI:\<close> followed by that string. After start-up on an absent record
  and one poll with idle sensors at the position \<open>(30, 30)\<close> (source Startup, enabled, no
  sensor, inside the zone) the string is \<open>SEZ\<close>.
\<close>

theorem realtime_flag_string:
  "realtime_flags s =
     source_flag (source (atci s))
     @ (if enabled (atci s) then ''E'' else [])
     @ (if monitor_rack_presence (config s) \<and> last_pin_state (atci s) then ''I'' else [])
     @ (if drawbar_state s then ''B'' else [])
     @ (if tool_sensor_state s then ''L'' else [])
     @ (if pressure_sensor_state s then ''P'' else [])
     @ (if inside_keepout_zone s then ''Z'' else [])
   \<and> source_flag SOURCE_STARTUP = ''S'' \<and> source_flag SOURCE_RACK = ''R''
   \<and> source_flag SOURCE_COMMAND = ''M'' \<and> source_flag SOURCE_MACRO = ''T''
   \<and> stream (onRealtimeReport None s) = stream s @ [''|ATCI:'' @ realtime_flags s]
   \<and> source (atci (poll_rack_sensor rack_absent (Some (at_xy 30 30 [])) (boot None)))
       = SOURCE_STARTUP
   \<and> enabled (atci (poll_rack_sensor rack_absent (Some (at_xy 30 30 [])) (boot None)))
   \<and> inside_keepout_zone (poll_rack_sensor rack_absent (Some (at_xy 30 30 [])) (boot None))
   \<and> realtime_flags (poll_rack_sensor rack_absent (Some (at_xy 30 30 [])) (boot None)) = ''SEZ''
   \<and> stream (onRealtimeReport None
        (poll_rack_sensor rack_absent (Some (at_xy 30 30 [])) (boot None))) = [''|ATCI:SEZ'']"
proof -
  have flags: "realtime_flags s =
     source_flag (source (atci s))
     @ (if enabled (atci s) then ''E'' else [])
     @ (if monitor_rack_presence (config s) \<and> last_pin_state (atci s) then ''I'' else [])
     @ (if drawbar_state s then ''B'' else [])
     @ (if tool_sensor_state s then ''L'' else [])
     @ (if pressure_sensor_state s then ''P'' else [])
     @ (if inside_keepout_zone s then ''Z'' else [])" for s
    by (simp add: realtime_flags_def Let_def)
  have src: "source_flag SOURCE_STARTUP = ''S''" "source_flag SOURCE_RACK = ''R''"
    "source_flag SOURCE_COMMAND = ''M''" "source_flag SOURCE_MACRO = ''T''"
    by (simp_all add: source_flag_def)
  have rep: "stream (onRealtimeReport None s) = stream s @ [''|ATCI:'' @ realtime_flags s]" for s
    by (simp add: onRealtimeReport_def Let_def)
  have polled: "poll_rack_sensor rack_absent (Some (at_xy 30 30 [])) (boot None) =
     \<lparr>config = default_config,
      atci = \<lparr>x_min = 10, y_min = 10, x_max = 50, y_max = 50, enabled = True,
               source = SOURCE_STARTUP, last_pin_state = False\<rparr>,
      tc_macro_running = False, drawbar_state = False, tool_sensor_state = False,
      pressure_sensor_state = False, inside_keepout_zone = True,
      nvs = Some default_config, messages = [], tasks = [1000, 100], stream = []\<rparr>"
    by (simp add: poll_rack_sensor_def boot_None_eq rack_absent_def at_xy_def
        technically_inside_def task_add_delayed_def default_config_def Let_def)
  have sez: "realtime_flags (poll_rack_sensor rack_absent (Some (at_xy 30 30 [])) (boot None))
               = ''SEZ''"
    unfolding flags polled by (simp add: src default_config_def)
  have out: "stream (onRealtimeReport None
        (poll_rack_sensor rack_absent (Some (at_xy 30 30 [])) (boot None))) = [''|ATCI:SEZ'']"
    unfolding rep sez by (simp add: polled)
  from flags [of s] src rep [of s] sez out show ?thesis
    by (simp add: polled)
qed

section \<open>The tool-change macro and the rack sensor\<close>

text \<open>
  With \<open>monitor_tc_macro\<close> set, the tool-selection hook marks the macro as running and
  switches enforcement off with source Macro; the tool-changed hook clears the mark and
  sets \<open>enabled\<close> from the rack input read at that moment, with source Rack.
\<close>

lemma tool_selected_disables:
  assumes "monitor_tc_macro (config s)"
  shows "tc_macro_running (keepout_tool_selected s)
       \<and> \<not> is_keepout_active (keepout_tool_selected s)
       \<and> source (atci (keepout_tool_selected s)) = SOURCE_MACRO"
  using assms
  by (auto simp: keepout_tool_selected_def set_keepout_state_def is_keepout_active_def)

lemma tool_changed_rederives:
  assumes "monitor_tc_macro (config s)"
  shows "\<not> tc_macro_running (keepout_tool_changed pins s)
       \<and> enabled (atci (keepout_tool_changed pins s)) = (\<not> AUXINPUT7 pins)
       \<and> source (atci (keepout_tool_changed pins s)) = SOURCE_RACK"
  using assms
  by (auto simp: keepout_tool_changed_def set_keepout_state_def Let_def)

text \<open>A poll that sees the rack input unchanged, or runs with rack monitoring off, leaves
  \<open>enabled\<close> and the source as they are.\<close>

lemma poll_keeps_state:
  assumes "\<not> monitor_rack_presence (config s) \<or> (\<not> AUXINPUT7 pins) = last_pin_state (atci s)"
  shows "atci (poll_rack_sensor pins pos s) = atci s
       \<and> tc_macro_running (poll_rack_sensor pins pos s) = tc_macro_running s"
  using assms
  by (auto simp: poll_rack_sensor_def task_add_delayed_def Let_def)

text \<open>
  Claim C2 against the code. \<open>poll_rack_sensor\<close> never reads \<open>tc_macro_running\<close>: a poll
  that sees the rack input change calls \<open>set_keepout_state\<close> with the new reading. Start
  up with the plugin and both monitors on, let a poll see the rack, select a tool (the
  macro is now running and enforcement is off), then let one poll see the rack input
  high and the next see it low again: the macro is still marked as running, enforcement
  is active with source Rack, and the check path rejects a move into the zone.
\<close>

theorem macro_override_lost_on_rack_change:
  "tc_macro_running (keepout_tool_selected (poll_rack_sensor rack_present None enforcing))
   \<and> \<not> is_keepout_active (keepout_tool_selected (poll_rack_sensor rack_present None enforcing))
   \<and> tc_macro_running
        (poll_rack_sensor rack_present None
          (poll_rack_sensor rack_absent None
            (keepout_tool_selected (poll_rack_sensor rack_present None enforcing))))
   \<and> is_keepout_active
        (poll_rack_sensor rack_present None
          (poll_rack_sensor rack_absent None
            (keepout_tool_selected (poll_rack_sensor rack_present None enforcing))))
   \<and> source (atci
        (poll_rack_sensor rack_present None
          (poll_rack_sensor rack_absent None
            (keepout_tool_selected (poll_rack_sensor rack_present None enforcing))))) = SOURCE_RACK
   \<and> fst (travel_limits_check (None :: (coord \<Rightarrow> unit \<Rightarrow> bool \<Rightarrow> unit \<Rightarrow> bool) option)
        (Some (at_xy 0 30 []))
        (poll_rack_sensor rack_present None
          (poll_rack_sensor rack_absent None
            (keepout_tool_selected (poll_rack_sensor rack_present None enforcing))))
        (at_xy 30 30 []) () True ()) = False"
proof -
  have s1: "poll_rack_sensor rack_present None enforcing =
     \<lparr>config = enforcing_config,
      atci = \<lparr>x_min = 10, y_min = 10, x_max = 50, y_max = 50, enabled = True,
               source = SOURCE_RACK, last_pin_state = True\<rparr>,
      tc_macro_running = False, drawbar_state = False, tool_sensor_state = False,
      pressure_sensor_state = False, inside_keepout_zone = False,
      nvs = Some enforcing_config, messages = [], tasks = [1000, 100], stream = []\<rparr>"
    by (simp add: poll_rack_sensor_def enforcing_eq enforcing_config_simps rack_present_def
        set_keepout_state_def task_add_delayed_def Let_def)
  have s2: "keepout_tool_selected (poll_rack_sensor rack_present None enforcing) =
     \<lparr>config = enforcing_config,
      atci = \<lparr>x_min = 10, y_min = 10, x_max = 50, y_max = 50, enabled = False,
               source = SOURCE_MACRO, last_pin_state = True\<rparr>,
      tc_macro_running = True, drawbar_state = False, tool_sensor_state = False,
      pressure_sensor_state = False, inside_keepout_zone = False,
      nvs = Some enforcing_config, messages = [], tasks = [1000, 100], stream = []\<rparr>"
    unfolding s1
    by (simp add: keepout_tool_selected_def enforcing_config_simps set_keepout_state_def)
  have s3: "poll_rack_sensor rack_absent None
          (keepout_tool_selected (poll_rack_sensor rack_present None enforcing)) =
     \<lparr>config = enforcing_config,
      atci = \<lparr>x_min = 10, y_min = 10, x_max = 50, y_max = 50, enabled = False,
               source = SOURCE_RACK, last_pin_state = False\<rparr>,
      tc_macro_running = True, drawbar_state = False, tool_sensor_state = False,
      pressure_sensor_state = False, inside_keepout_zone = False,
      nvs = Some enforcing_config, messages = [], tasks = [1000, 100, 100], stream = []\<rparr>"
    unfolding s2
    by (simp add: poll_rack_sensor_def enforcing_config_simps rack_absent_def
        set_keepout_state_def task_add_delayed_def Let_def)
  have s4: "poll_rack_sensor rack_present None
          (poll_rack_sensor rack_absent None
            (keepout_tool_selected (poll_rack_sensor rack_present None enforcing))) =
     \<lparr>config = enforcing_config,
      atci = \<lparr>x_min = 10, y_min = 10, x_max = 50, y_max = 50, enabled = True,
               source = SOURCE_RACK, last_pin_state = True\<rparr>,
      tc_macro_running = True, drawbar_state = False, tool_sensor_state = False,
      pressure_sensor_state = False, inside_keepout_zone = False,
      nvs = Some enforcing_config, messages = [], tasks = [1000, 100, 100, 100], stream = []\<rparr>"
    unfolding s3
    by (simp add: poll_rack_sensor_def enforcing_config_simps rack_present_def
        set_keepout_state_def task_add_delayed_def Let_def)
  have r1: "tc_macro_running (keepout_tool_selected (poll_rack_sensor rack_present None enforcing))"
    and r2: "\<not> is_keepout_active
        (keepout_tool_selected (poll_rack_sensor rack_present None enforcing))"
    unfolding s2 by (simp_all add: is_keepout_active_def)
  have r3: "tc_macro_running
        (poll_rack_sensor rack_present None
          (poll_rack_sensor rack_absent None
            (keepout_tool_selected (poll_rack_sensor rack_present None enforcing))))"
    and r4: "is_keepout_active
        (poll_rack_sensor rack_present None
          (poll_rack_sensor rack_absent None
            (keepout_tool_selected (poll_rack_sensor rack_present None enforcing))))"
    and r5: "source (atci
        (poll_rack_sensor rack_present None
          (poll_rack_sensor rack_absent None
            (keepout_tool_selected (poll_rack_sensor rack_present None enforcing))))) = SOURCE_RACK"
    and r6: "fst (travel_limits_check (None :: (coord \<Rightarrow> unit \<Rightarrow> bool \<Rightarrow> unit \<Rightarrow> bool) option)
        (Some (at_xy 0 30 []))
        (poll_rack_sensor rack_present None
          (poll_rack_sensor rack_absent None
            (keepout_tool_selected (poll_rack_sensor rack_present None enforcing))))
        (at_xy 30 30 []) () True ()) = False"
    unfolding s4
    by (simp_all add: is_keepout_active_def enforcing_config_simps travel_limits_check_def
        strictly_deep_inside_def technically_inside_def KEEPOUT_TOLERANCE_def
        binary32_values at_xy_def Let_def)
  from r1 r2 r3 r4 r5 r6 show ?thesis by blast
qed

end
